theory Spec2Isabelle
  imports Main "HOL-Library.Word" "HOL-Library.Multiset"
begin

unbundle bit_operations_syntax

section \<open>The rule engine and the bitboard package, as the search sees them\<close>

text \<open>
  The search and the evaluator (package \<open>ai\<close>) are written against package \<open>tak\<close>
  (positions and moves) and package \<open>bitboard\<close>, whose sources are not at hand.
  Positions are therefore an opaque type \<open>'p\<close>; every method of \<open>*tak.Position\<close> that
  the code calls is a field of the record \<open>'p tak\<close> (prefix \<open>p\<close>: \<open>p.Hash()\<close> is
  \<open>pHash T p\<close>), and every function of package \<open>bitboard\<close> a field of \<open>'c bitboard\<close>.
  Scores are Go \<open>int64\<close>; all scores that occur are bounded by a small multiple of
  \<open>2 ^ 30\<close>, far from the 64-bit range, and are modelled as \<open>int\<close>. Search depths and
  plies are non-negative Go \<open>int\<close>s and are modelled as \<open>nat\<close>. The counters of
  \<open>Stats\<close> are \<open>uint64\<close>; they count nodes of one search, stay far below \<open>2 ^ 64\<close>, and
  are modelled as \<open>nat\<close>. Bitboards, hashes and the heat map are 64-bit words.
\<close>

datatype Color = White | Black | NoColor

text \<open>
  Modelled from the spec: \<open>tak.MoveType\<close>. The spec lists the kinds in this order and
  says that slide kinds compare strictly greater than place kinds; \<open>typeOrd\<close> is that order.
\<close>

datatype MoveType =
  PlaceFlat | PlaceStanding | PlaceCapstone | SlideLeft | SlideRight | SlideUp | SlideDown

fun typeOrd :: "MoveType \<Rightarrow> nat" where
  "typeOrd PlaceFlat = 0"
| "typeOrd PlaceStanding = 1"
| "typeOrd PlaceCapstone = 2"
| "typeOrd SlideLeft = 3"
| "typeOrd SlideRight = 4"
| "typeOrd SlideUp = 5"
| "typeOrd SlideDown = 6"

record Move =
  X :: int
  Y :: int
  Type :: MoveType
  Slides :: "nat list"

text \<open>
  Modelled from the spec: \<open>tak.Move.Equal\<close>. Moves are values made of the coordinates,
  the kind and the drop sequence; two moves are equal when all of these agree.
\<close>

definition Equal :: "Move \<Rightarrow> Move \<Rightarrow> bool" where
  "Equal a b \<longleftrightarrow> X a = X b \<and> Y a = Y b \<and> Type a = Type b \<and> Slides a = Slides b"

record 'p tak =
  pSize :: "'p \<Rightarrow> int"
  pToMove :: "'p \<Rightarrow> Color"
  pMoveNumber :: "'p \<Rightarrow> int"
  pHash :: "'p \<Rightarrow> 64 word"
  pGameOver :: "'p \<Rightarrow> bool \<times> Color"
  pAllMoves :: "'p \<Rightarrow> Move list"
  pMove :: "'p \<Rightarrow> Move \<Rightarrow> 'p option"
  pWhiteStones :: "'p \<Rightarrow> int"
  pBlackStones :: "'p \<Rightarrow> int"
  pWhite :: "'p \<Rightarrow> 64 word"
  pBlack :: "'p \<Rightarrow> 64 word"
  pCaps :: "'p \<Rightarrow> 64 word"
  pStanding :: "'p \<Rightarrow> 64 word"
  pHeight :: "'p \<Rightarrow> nat list"
  pStacks :: "'p \<Rightarrow> 64 word list"
  pAnalysis :: "'p \<Rightarrow> 64 word list \<times> 64 word list"

record 'c bitboard =
  Precompute :: "int \<Rightarrow> 'c"
  Popcount :: "64 word \<Rightarrow> int"
  Grow :: "'c \<Rightarrow> 64 word \<Rightarrow> 64 word \<Rightarrow> 64 word"
  Dimensions :: "'c \<Rightarrow> 64 word \<Rightarrow> nat \<times> nat"

datatype error = WrongSize | IndexOutOfRange

section \<open>The evaluator (ai/evaluate.go)\<close>

definition maxEval :: int where
  "maxEval = 2 ^ 30"

definition minEval :: int where
  "minEval = - maxEval"

definition WinThreshold :: int where
  "WinThreshold = 2 ^ 29"

record Weights =
  TopFlat :: int
  Standing :: int
  Capstone :: int
  Flat :: int
  Captured :: int
  Liberties :: int
  Tempo :: int
  Groups :: "int list"

definition DefaultWeights :: Weights where
  "DefaultWeights = \<lparr> TopFlat = 400, Standing = 200, Capstone = 300, Flat = 100,
     Captured = 25, Liberties = 20, Tempo = 250, Groups = [0, 0, 0, 100, 300, 500, 0, 0] \<rparr>"

text \<open>\<open>scoreGroups\<close>: the loop over the groups; \<open>ws.Groups[w]\<close> panics out of range.\<close>

fun scoreGroups :: "'c bitboard \<Rightarrow> 'c \<Rightarrow> Weights \<Rightarrow> 64 word list \<Rightarrow> int \<Rightarrow> error + int" where
  "scoreGroups B c ws [] sc = Inr sc"
| "scoreGroups B c ws (g # gs) sc =
     (case Dimensions B c g of (w, h) \<Rightarrow>
        if w < length (Groups ws) \<and> h < length (Groups ws)
        then scoreGroups B c ws gs (sc + Groups ws ! w + Groups ws ! h)
        else Inl IndexOutOfRange)"

text \<open>
  The loop \<open>for i, h := range p.Height\<close> of \<open>evaluate\<close>; the accumulator is \<open>(ws, bs)\<close>,
  \<open>i\<close> the index of the head of the remaining heights.
\<close>

fun stackScores ::
  "'c bitboard \<Rightarrow> Weights \<Rightarrow> int \<Rightarrow> 64 word \<Rightarrow> 64 word list \<Rightarrow> nat \<Rightarrow> nat list \<Rightarrow> int \<times> int
    \<Rightarrow> error + int \<times> int" where
  "stackScores B w sz wh stacks i [] acc = Inr acc"
| "stackScores B w sz wh stacks i (h # hs) (ws, bs) =
     (if h \<le> 1 then stackScores B w sz wh stacks (Suc i) hs (ws, bs)
      else if length stacks \<le> i then Inl IndexOutOfRange
      else
        let s = (stacks ! i) AND (push_bit (h - 1) 1 - 1);
            bf = Popcount B s;
            wf = int h - bf - 1;
            ws1 = ws + wf * Flat w;
            bs1 = bs + bf * Flat w;
            captured = (if int (h - 1) > sz - 1 then sz - 1 else int (h - 1))
        in if wh AND push_bit i 1 \<noteq> 0
           then stackScores B w sz wh stacks (Suc i) hs (ws1 + captured * Captured w, bs1)
           else stackScores B w sz wh stacks (Suc i) hs (ws1, bs1 + captured * Captured w))"

definition evaluate :: "'p tak \<Rightarrow> 'c bitboard \<Rightarrow> Weights \<Rightarrow> 'c \<Rightarrow> 'p \<Rightarrow> error + int" where
  "evaluate T B w c p =
     (case pGameOver T p of (over, winner) \<Rightarrow>
      if over then
        (let pieces = (if winner = White then pWhiteStones T p else pBlackStones T p)
         in if winner = NoColor then Inr 0
            else if winner = pToMove T p then Inr (maxEval - pMoveNumber T p + pieces)
            else Inr (minEval + pMoveNumber T p - pieces))
      else
        (let ws0 = (if pToMove T p = White then Tempo w else 0);
             bs0 = (if pToMove T p = White then 0 else Tempo w);
             analysis = pAnalysis T p;
             ws1 = ws0 + Popcount B (pWhite T p AND NOT (pCaps T p) AND NOT (pStanding T p)) * TopFlat w;
             bs1 = bs0 + Popcount B (pBlack T p AND NOT (pCaps T p) AND NOT (pStanding T p)) * TopFlat w;
             ws2 = ws1 + Popcount B (pWhite T p AND pStanding T p) * Standing w;
             bs2 = bs1 + Popcount B (pBlack T p AND pStanding T p) * Standing w;
             ws3 = ws2 + Popcount B (pWhite T p AND pCaps T p) * Capstone w;
             bs3 = bs2 + Popcount B (pBlack T p AND pCaps T p) * Capstone w
         in case stackScores B w (pSize T p) (pWhite T p) (pStacks T p) 0 (pHeight T p) (ws3, bs3) of
              Inl e \<Rightarrow> Inl e
            | Inr (ws4, bs4) \<Rightarrow>
           (case scoreGroups B c w (fst analysis) 0 of
              Inl e \<Rightarrow> Inl e
            | Inr wg \<Rightarrow>
           (case scoreGroups B c w (snd analysis) 0 of
              Inl e \<Rightarrow> Inl e
            | Inr bg \<Rightarrow>
              let ws5 = ws4 + wg;
                  bs5 = bs4 + bg;
                  wr = pWhite T p AND NOT (pStanding T p);
                  br = pBlack T p AND NOT (pStanding T p);
                  wl = Popcount B (Grow B c (NOT (pBlack T p)) wr AND NOT wr);
                  bl = Popcount B (Grow B c (NOT (pWhite T p)) br AND NOT br);
                  ws6 = ws5 + Liberties w * wl;
                  bs6 = bs5 + Liberties w * bl
              in if pToMove T p = White then Inr (ws6 - bs6) else Inr (bs6 - ws6)))))"

section \<open>The searcher (ai/minimax.go, the variant with the move generator)\<close>

text \<open>
  Two variants of the searcher are among the sources. This section embeds the one that
  searches later moves with a null window and stores one move per table entry; the
  older variant, which searches every move with the full window and stores whole lines,
  follows in its own section with names ending in \<open>0\<close>.

  \<open>MinimaxAI\<close> is split in two: what \<open>NewMinimax\<close> fixes for good (the configuration
  \<open>cfg\<close>, the evaluation function \<open>evaluate\<close>) is passed to every function as is; what the
  search mutates (\<open>rand\<close>, \<open>st\<close>, \<open>heatMap\<close>, \<open>table\<close>) is the record \<open>MinimaxAI\<close>, passed in
  and returned. Logging (\<open>cfg.Debug\<close>) has no effect on any result and is left out.
\<close>

datatype boundType = lowerBound | exactBound | upperBound

record tableEntry =
  te_hash :: "64 word"
  te_depth :: nat
  te_value :: int
  te_bound :: boundType
  te_m :: Move

record Stats =
  stDepth :: nat
  Generated :: nat
  Evaluated :: nat
  Terminal :: nat
  Visited :: nat
  CutNodes :: nat
  Cut0 :: nat
  Cut1 :: nat
  CutSearch :: nat
  AllNodes :: nat
  TTHits :: nat

record 'p MinimaxConfig =
  Size :: int
  Depth :: int
  Debug :: int
  Seed :: int
  NoSort :: bool
  NoTable :: bool
  Evaluate :: "('p \<Rightarrow> error + int) option"

record ('r, 'e) MinimaxAI =
  rand :: 'r
  st :: Stats
  heatMap :: "64 word list"
  table :: "nat \<Rightarrow> 'e"

definition tableSize :: "64 word" where
  "tableSize = 2 ^ 20"

definition zeroStats :: Stats where
  "zeroStats = \<lparr> stDepth = 0, Generated = 0, Evaluated = 0, Terminal = 0, Visited = 0,
     CutNodes = 0, Cut0 = 0, Cut1 = 0, CutSearch = 0, AllNodes = 0, TTHits = 0 \<rparr>"

text \<open>
  The zero value of a table entry, as \<open>make\<close> leaves it. Which kind the zero byte of
  \<open>tak.MoveType\<close> denotes is not visible in the sources at hand; the zero move is never
  played or returned (a zero entry has depth 0 and bound \<open>lowerBound\<close>, so it never
  suffices), it is only handed to the move generator.
\<close>

definition zeroMove :: Move where
  "zeroMove = \<lparr> X = 0, Y = 0, Type = PlaceFlat, Slides = [] \<rparr>"

definition zeroEntry :: tableEntry where
  "zeroEntry = \<lparr> te_hash = 0, te_depth = 0, te_value = 0, te_bound = lowerBound, te_m = zeroMove \<rparr>"

text \<open>
  \<open>NewMinimax\<close>: the evaluation function is \<open>cfg.Evaluate\<close>, or \<open>DefaultEvaluate\<close> (the
  evaluator with the default weights) when that is nil; the mutable part starts zeroed.
\<close>

definition ai_evaluate :: "'p tak \<Rightarrow> 'c bitboard \<Rightarrow> 'p MinimaxConfig \<Rightarrow> 'p \<Rightarrow> error + int" where
  "ai_evaluate T B cfg =
     (case Evaluate cfg of
        None \<Rightarrow> evaluate T B DefaultWeights (Precompute B (Size cfg))
      | Some f \<Rightarrow> f)"

definition NewMinimax :: "'p MinimaxConfig \<Rightarrow> 'r \<Rightarrow> ('r, tableEntry) MinimaxAI" where
  "NewMinimax cfg r0 =
     \<lparr> rand = r0, st = zeroStats, heatMap = replicate (nat (Size cfg * Size cfg)) 0,
       table = (\<lambda>i. zeroEntry) \<rparr>"

definition ttGet :: "'p MinimaxConfig \<Rightarrow> ('r, tableEntry) MinimaxAI \<Rightarrow> 64 word \<Rightarrow> tableEntry option" where
  "ttGet cfg ai h =
     (if NoTable cfg then None
      else let te = table ai (unat (h mod tableSize))
           in if te_hash te \<noteq> h then None else Some te)"

text \<open>
  \<open>ttPut\<close> hands out the slot of \<open>h\<close>; its caller then writes every field of it, so the
  model takes the finished entry.
\<close>

definition ttPut :: "('r, 'e) MinimaxAI \<Rightarrow> 64 word \<Rightarrow> 'e \<Rightarrow> ('r, 'e) MinimaxAI" where
  "ttPut ai h e = ai\<lparr>table := (table ai)(unat (h mod tableSize) := e)\<rparr>"

text \<open>The local variable \<open>teSuffices\<close> of \<open>minimax\<close>, as a function of the entry and the node.\<close>

definition teSuffices :: "tableEntry \<Rightarrow> nat \<Rightarrow> int \<Rightarrow> int \<Rightarrow> bool" where
  "teSuffices te d \<alpha> \<beta> \<longleftrightarrow>
     (te_depth te \<ge> d \<and>
        (te_bound te = exactBound \<or>
         (te_value te < \<alpha> \<and> te_bound te = upperBound) \<or>
         (te_value te > \<beta> \<and> te_bound te = lowerBound)))
     \<or> (te_bound te = exactBound \<and> (te_value te > WinThreshold \<or> te_value te < - WinThreshold))"

text \<open>
  The statistics and the heat map at a cutoff by the \<open>i\<close>-th move \<open>mv\<close> (\<open>i\<close> counts from 1).
  \<open>ai.heatMap[m.X+m.Y*ai.cfg.Size]\<close> panics when the index is out of range.
\<close>

definition recordCut ::
  "'p MinimaxConfig \<Rightarrow> nat \<Rightarrow> nat \<Rightarrow> Move \<Rightarrow> ('r, 'e) MinimaxAI \<Rightarrow> error + ('r, 'e) MinimaxAI" where
  "recordCut cfg d i mv ai =
     (let s0 = st ai;
          s1 = s0\<lparr>CutNodes := CutNodes s0 + 1\<rparr>;
          s2 = (if i = 1 then s1\<lparr>Cut0 := Cut0 s1 + 1\<rparr>
                else if i = 2 then s1\<lparr>Cut1 := Cut1 s1 + 1\<rparr>
                else s1\<lparr>CutSearch := CutSearch s1 + (i + 1)\<rparr>);
          k = X mv + Y mv * Size cfg
      in if 0 \<le> k \<and> k < int (length (heatMap ai))
         then Inr (ai\<lparr>st := s2,
                heatMap := (heatMap ai)[nat k := heatMap ai ! nat k + push_bit d 1]\<rparr>)
         else Inl IndexOutOfRange)"

text \<open>
  The move generator (\<open>moveGenerator\<close>, built from \<open>ai\<close>, \<open>ply\<close>, \<open>depth\<close>, \<open>p\<close>, \<open>te\<close> and
  \<open>pv\<close>) is not among the sources at hand. Its method \<open>Next\<close> is called until it yields
  a nil child; the search sees the finite sequence of pairs (move, child position) that
  these calls yield, and whatever the generator does to the searcher (it holds a pointer
  to it). The generator is therefore a parameter of this type: from the searcher and
  the fields of the struct literal to the sequence of pairs and the searcher after
  generating.
\<close>

type_synonym ('p, 'r) moveGenerator =
  "('r, tableEntry) MinimaxAI \<Rightarrow> nat \<Rightarrow> nat \<Rightarrow> 'p \<Rightarrow> tableEntry option \<Rightarrow> Move list
     \<Rightarrow> (Move \<times> 'p) list \<times> ('r, tableEntry) MinimaxAI"

type_synonym ('p, 'r) search =
  "('r, tableEntry) MinimaxAI \<Rightarrow> 'p \<Rightarrow> Move list \<Rightarrow> int \<Rightarrow> int
     \<Rightarrow> error + ('r, tableEntry) MinimaxAI \<times> Move list \<times> int"

text \<open>
  The search of one child inside the move loop: the first move (\<open>i = 1\<close>) with the full
  window \<open>(-\<beta>, -\<alpha>)\<close>; a later move with the null window \<open>(-\<alpha>-1, -\<alpha>)\<close> first and, when
  \<open>-v > \<alpha> \<and> -v < \<beta>\<close>, once more with the full window. \<open>search\<close> is the recursive call
  \<open>ai.minimax(child, ply+1, depth-1, ...)\<close>.
\<close>

definition searchChild ::
  "('p, 'r) search \<Rightarrow> nat \<Rightarrow> ('r, tableEntry) MinimaxAI \<Rightarrow> 'p \<Rightarrow> Move list \<Rightarrow> int \<Rightarrow> int
     \<Rightarrow> error + ('r, tableEntry) MinimaxAI \<times> Move list \<times> int" where
  "searchChild search i ai child newpv \<alpha> \<beta> =
     (if i > 1 then
        (case search ai child newpv (- \<alpha> - 1) (- \<alpha>) of
           Inl e \<Rightarrow> Inl e
         | Inr (ai1, ms, v) \<Rightarrow>
             if - v > \<alpha> \<and> - v < \<beta> then search ai1 child newpv (- \<beta>) (- \<alpha>)
             else Inr (ai1, ms, v))
      else search ai child newpv (- \<beta>) (- \<alpha>))"

text \<open>
  The move loop of \<open>minimax\<close>. \<open>i0\<close> is the number of children searched so far; the result
  is the searcher, \<open>best\<close>, \<open>\<alpha>\<close> and \<open>improved\<close> when the loop is left.
\<close>

fun searchMoves ::
  "('p, 'r) search \<Rightarrow> 'p MinimaxConfig \<Rightarrow> nat \<Rightarrow> int \<Rightarrow> (Move \<times> 'p) list \<Rightarrow> nat
     \<Rightarrow> ('r, tableEntry) MinimaxAI \<Rightarrow> Move list \<Rightarrow> int \<Rightarrow> bool
     \<Rightarrow> error + ('r, tableEntry) MinimaxAI \<times> Move list \<times> int \<times> bool" where
  "searchMoves search cfg d \<beta> [] i0 ai best \<alpha> improved = Inr (ai, best, \<alpha>, improved)"
| "searchMoves search cfg d \<beta> ((mv, child) # rest) i0 ai best \<alpha> improved =
     (let i = i0 + 1;
          newpv = (if best \<noteq> [] then tl best else [])
      in case searchChild search i ai child newpv \<alpha> \<beta> of
           Inl e \<Rightarrow> Inl e
         | Inr (ai1, ms, v0) \<Rightarrow>
             let v = - v0;
                 best1 = (if best = [] then mv # ms else best)
             in if v > \<alpha> then
                  (if v \<ge> \<beta> then
                     (case recordCut cfg d i mv ai1 of
                        Inl e \<Rightarrow> Inl e
                      | Inr ai2 \<Rightarrow> Inr (ai2, mv # ms, v, True))
                   else searchMoves search cfg d \<beta> rest i ai1 (mv # ms) v True)
                else searchMoves search cfg d \<beta> rest i ai1 best1 \<alpha> improved)"

text \<open>
  The entry written after the move loop, and the count of all-nodes. \<open>te.m = best[0]\<close>
  panics when \<open>best\<close> is empty.
\<close>

definition storeResult ::
  "('r, tableEntry) MinimaxAI \<Rightarrow> 64 word \<Rightarrow> nat \<Rightarrow> Move list \<Rightarrow> int \<Rightarrow> int \<Rightarrow> bool
     \<Rightarrow> error + ('r, tableEntry) MinimaxAI" where
  "storeResult ai h d best \<alpha> \<beta> improved =
     (case best of
        [] \<Rightarrow> Inl IndexOutOfRange
      | b # _ \<Rightarrow>
          let e = \<lparr> te_hash = h, te_depth = d, te_value = \<alpha>,
                    te_bound = (if \<not> improved then upperBound
                                else if \<alpha> \<ge> \<beta> then lowerBound else exactBound),
                    te_m = b \<rparr>;
              ai1 = ttPut ai h e
          in if \<not> improved
             then Inr (ai1\<lparr>st := (st ai1)\<lparr>AllNodes := AllNodes (st ai1) + 1\<rparr>\<rparr>)
             else Inr ai1)"

text \<open>
  The probe of the table at the head of \<open>minimax\<close>: \<open>Some\<close> of what the function returns
  at once (the stored move and value, with \<open>TTHits\<close> counted), or \<open>None\<close> when the search
  goes on; \<open>teAfterProbe\<close> is the value of the variable \<open>te\<close> after the probe (nil when the
  entry sufficed but its move did not apply).
\<close>

definition ttProbe ::
  "'p tak \<Rightarrow> 'p MinimaxConfig \<Rightarrow> ('r, tableEntry) MinimaxAI \<Rightarrow> 'p \<Rightarrow> nat \<Rightarrow> int \<Rightarrow> int
     \<Rightarrow> (('r, tableEntry) MinimaxAI \<times> Move list \<times> int) option" where
  "ttProbe T cfg ai p d \<alpha> \<beta> =
     (case ttGet cfg ai (pHash T p) of
        None \<Rightarrow> None
      | Some te \<Rightarrow>
          if teSuffices te d \<alpha> \<beta> then
            (case pMove T p (te_m te) of
               None \<Rightarrow> None
             | Some _ \<Rightarrow> Some (ai\<lparr>st := (st ai)\<lparr>TTHits := TTHits (st ai) + 1\<rparr>\<rparr>, [te_m te], te_value te))
          else None)"

definition teAfterProbe ::
  "'p MinimaxConfig \<Rightarrow> ('r, tableEntry) MinimaxAI \<Rightarrow> 64 word \<Rightarrow> nat \<Rightarrow> int \<Rightarrow> int \<Rightarrow> tableEntry option" where
  "teAfterProbe cfg ai h d \<alpha> \<beta> =
     (case ttGet cfg ai h of
        None \<Rightarrow> None
      | Some te \<Rightarrow> if teSuffices te d \<alpha> \<beta> then None else Some te)"

fun minimax ::
  "'p tak \<Rightarrow> 'p MinimaxConfig \<Rightarrow> ('p \<Rightarrow> error + int) \<Rightarrow> ('p, 'r) moveGenerator
     \<Rightarrow> ('r, tableEntry) MinimaxAI \<Rightarrow> 'p \<Rightarrow> nat \<Rightarrow> nat \<Rightarrow> Move list \<Rightarrow> int \<Rightarrow> int
     \<Rightarrow> error + ('r, tableEntry) MinimaxAI \<times> Move list \<times> int" where
  "minimax T cfg ev gen ai p ply d pv \<alpha> \<beta> =
     (if d = 0 \<or> fst (pGameOver T p) then
        (let s1 = (st ai)\<lparr>Evaluated := Evaluated (st ai) + 1\<rparr>;
             s2 = (if fst (pGameOver T p) then s1\<lparr>Terminal := Terminal s1 + 1\<rparr> else s1)
         in case ev p of
              Inl e \<Rightarrow> Inl e
            | Inr v \<Rightarrow> Inr (ai\<lparr>st := s2\<rparr>, [], v))
      else
        (let ai1 = ai\<lparr>st := (st ai)\<lparr>Visited := Visited (st ai) + 1\<rparr>\<rparr>
         in case ttProbe T cfg ai1 p d \<alpha> \<beta> of
              Some r \<Rightarrow> Inr r
            | None \<Rightarrow>
                (case gen ai1 ply d p (teAfterProbe cfg ai1 (pHash T p) d \<alpha> \<beta>) pv of
                   (moves, ai2) \<Rightarrow>
                (case searchMoves
                        (\<lambda>a child newpv lo hi. minimax T cfg ev gen a child (ply + 1) (d - 1) newpv lo hi)
                        cfg d \<beta> moves 0 ai2 pv \<alpha> False of
                   Inl e \<Rightarrow> Inl e
                 | Inr (ai3, best, \<alpha>', improved) \<Rightarrow>
                     (case storeResult ai3 (pHash T p) d best \<alpha>' \<beta> improved of
                        Inl e \<Rightarrow> Inl e
                      | Inr ai4 \<Rightarrow> Inr (ai4, best, \<alpha>'))))))"

declare minimax.simps [simp del]

text \<open>
  The deepening loop of \<open>Analyze\<close>, from iteration \<open>i\<close> on. The wall clock is a parameter:
  \<open>clock i\<close> is the pair of durations read after the search of iteration \<open>i\<close>, the time
  since the call began (\<open>timeUsed\<close>) and the time since the iteration began. The result is
  the searcher and the last \<open>ms\<close> and \<open>v\<close>.
\<close>

function deepen ::
  "'p tak \<Rightarrow> 'p MinimaxConfig \<Rightarrow> ('p \<Rightarrow> error + int) \<Rightarrow> ('p, 'r) moveGenerator
     \<Rightarrow> (nat \<Rightarrow> int \<times> int) \<Rightarrow> int \<Rightarrow> 'p \<Rightarrow> nat
     \<Rightarrow> nat \<Rightarrow> ('r, tableEntry) MinimaxAI \<Rightarrow> Move list \<Rightarrow> int \<Rightarrow> nat \<Rightarrow> nat
     \<Rightarrow> error + ('r, tableEntry) MinimaxAI \<times> Move list \<times> int" where
  "deepen T cfg ev gen clock limit p base i ai ms v prevEval branchSum =
     (if int (i + base) \<le> Depth cfg then
        (case minimax T cfg ev gen (ai\<lparr>st := zeroStats\<lparr>stDepth := i + base\<rparr>\<rparr>)
                p 0 (i + base) ms (minEval - 1) (maxEval + 1) of
           Inl e \<Rightarrow> Inl e
         | Inr (ai1, ms1, v1) \<Rightarrow>
             let branchSum1 = (if i > 1 then branchSum + Evaluated (st ai1) div (prevEval + 1)
                               else branchSum);
                 prevEval1 = Evaluated (st ai1)
             in if v1 > WinThreshold \<or> v1 < - WinThreshold then Inr (ai1, ms1, v1)
                else if int (i + base) \<noteq> Depth cfg \<and> limit \<noteq> 0 \<and>
                        (let branch = (if i > 2 then branchSum1 div (i - 1) else 20)
                         in fst (clock i) + snd (clock i) * int branch > limit)
                then Inr (ai1, ms1, v1)
                else deepen T cfg ev gen clock limit p base (i + 1) ai1 ms1 v1 prevEval1 branchSum1)
      else Inr (ai, ms, v))"
  by pat_completeness auto
termination
  by (relation "measure (\<lambda>(T, cfg, ev, gen, clock, limit, p, base, i, rest). nat (Depth cfg - int (i + base) + 1))")
     auto

declare deepen.simps [simp del]

text \<open>
  \<open>Analyze\<close>. \<open>newRand\<close> is \<open>rand.New(rand.NewSource(seed))\<close>, \<open>now\<close> the wall clock in
  seconds read when \<open>cfg.Seed\<close> is 0. The result is the searcher after the call and the
  triple the Go function returns; a panic is an error.
\<close>

definition Analyze ::
  "'p tak \<Rightarrow> 'p MinimaxConfig \<Rightarrow> ('p \<Rightarrow> error + int) \<Rightarrow> ('p, 'r) moveGenerator
     \<Rightarrow> (int \<Rightarrow> 'r) \<Rightarrow> int \<Rightarrow> (nat \<Rightarrow> int \<times> int)
     \<Rightarrow> ('r, tableEntry) MinimaxAI \<Rightarrow> 'p \<Rightarrow> int
     \<Rightarrow> error + ('r, tableEntry) MinimaxAI \<times> Move list \<times> int \<times> Stats" where
  "Analyze T cfg ev gen newRand now clock ai p limit =
     (if Size cfg \<noteq> pSize T p then Inl WrongSize
      else
        let seed = (if Seed cfg = 0 then now else Seed cfg);
            ai1 = ai\<lparr>heatMap := map (\<lambda>x. x div 2) (heatMap ai), rand := newRand seed\<rparr>;
            te = ttGet cfg ai1 (pHash T p);
            base = (case te of Some e \<Rightarrow> if te_bound e = exactBound then te_depth e else 0
                    | None \<Rightarrow> 0);
            ms = (case te of Some e \<Rightarrow> if te_bound e = exactBound then [te_m e] else []
                  | None \<Rightarrow> [])
        in case deepen T cfg ev gen clock limit p base 1 ai1 ms 0 0 0 of
             Inl e \<Rightarrow> Inl e
           | Inr (ai2, ms1, v1) \<Rightarrow> Inr (ai2, ms1, v1, st ai2))"

text \<open>\<open>GetMove\<close>: \<open>ms[0]\<close> panics when \<open>Analyze\<close> returns no move.\<close>

definition GetMove ::
  "'p tak \<Rightarrow> 'p MinimaxConfig \<Rightarrow> ('p \<Rightarrow> error + int) \<Rightarrow> ('p, 'r) moveGenerator
     \<Rightarrow> (int \<Rightarrow> 'r) \<Rightarrow> int \<Rightarrow> (nat \<Rightarrow> int \<times> int)
     \<Rightarrow> ('r, tableEntry) MinimaxAI \<Rightarrow> 'p \<Rightarrow> int
     \<Rightarrow> error + ('r, tableEntry) MinimaxAI \<times> Move" where
  "GetMove T cfg ev gen newRand now clock ai p limit =
     (case Analyze T cfg ev gen newRand now clock ai p limit of
        Inl e \<Rightarrow> Inl e
      | Inr (ai1, ms, v, stats) \<Rightarrow>
          (case ms of [] \<Rightarrow> Inl IndexOutOfRange | mv # _ \<Rightarrow> Inr (ai1, mv)))"

section \<open>The older variant of the searcher (names ending in 0)\<close>

text \<open>
  The older \<open>minimax\<close> generates, shuffles and reorders the moves itself, searches every
  child with the full window, and stores the whole line \<open>ms\<close> in a table entry. Its
  \<open>Stats\<close> and \<open>MinimaxConfig\<close> are those above without the fields \<open>Terminal\<close>, \<open>Cut1\<close>,
  \<open>NoSort\<close> and \<open>NoTable\<close>, which it never reads or writes; its \<open>MinimaxAI\<close> has no heat
  map, so \<open>heatMap\<close> stays as it is. \<open>int31n\<close> is \<open>rand.Int31n\<close>: from the generator state
  and the bound to the number drawn and the next state.
\<close>

record tableEntry0 =
  te0_hash :: "64 word"
  te0_depth :: nat
  te0_value :: int
  te0_bound :: boundType
  te0_ms :: "Move list"

definition zeroEntry0 :: tableEntry0 where
  "zeroEntry0 = \<lparr> te0_hash = 0, te0_depth = 0, te0_value = 0, te0_bound = lowerBound, te0_ms = [] \<rparr>"

definition NewMinimax0 :: "'p MinimaxConfig \<Rightarrow> 'r \<Rightarrow> ('r, tableEntry0) MinimaxAI" where
  "NewMinimax0 cfg r0 = \<lparr> rand = r0, st = zeroStats, heatMap = [], table = (\<lambda>i. zeroEntry0) \<rparr>"

definition ttGet0 :: "('r, tableEntry0) MinimaxAI \<Rightarrow> 64 word \<Rightarrow> tableEntry0 option" where
  "ttGet0 ai h =
     (let te = table ai (unat (h mod tableSize))
      in if te0_hash te \<noteq> h then None else Some te)"

text \<open>
  The shuffle at ply 0: \<open>for i := len(moves) - 1; i > 0; i--\<close>, swapping \<open>moves[j]\<close> and
  \<open>moves[i]\<close> for \<open>j := ai.rand.Int31n(int32(i))\<close>. The first argument is \<open>i\<close>.
\<close>

fun shuffle ::
  "('r \<Rightarrow> int \<Rightarrow> int \<times> 'r) \<Rightarrow> nat \<Rightarrow> 'r \<Rightarrow> Move list \<Rightarrow> error + Move list \<times> 'r" where
  "shuffle int31n 0 r moves = Inr (moves, r)"
| "shuffle int31n (Suc k) r moves =
     (case int31n r (int (Suc k)) of
        (j, r1) \<Rightarrow>
          if 0 \<le> j \<and> nat j < length moves \<and> Suc k < length moves
          then shuffle int31n k r1 (moves[nat j := moves ! Suc k, Suc k := moves ! nat j])
          else Inl IndexOutOfRange)"

text \<open>
  The reordering loop \<open>for i, m := range moves\<close> from index \<open>i\<close> on, with the slot counter
  \<open>j\<close>; \<open>pv0\<close> is \<open>pv[0]\<close>. \<open>te.ms[0]\<close> panics when the stored line is empty.
\<close>

function reorderFrom ::
  "Move \<Rightarrow> tableEntry0 option \<Rightarrow> nat \<Rightarrow> nat \<Rightarrow> Move list \<Rightarrow> error + Move list" where
  "reorderFrom pv0 te i j moves =
     (if i < length moves then
        (let mv = moves ! i
         in if Equal mv pv0 then
              (if typeOrd (Type mv) < typeOrd SlideLeft
               then Inr (moves[0 := moves ! i, i := moves ! 0])
               else reorderFrom pv0 te (i + 1) j (moves[0 := moves ! i, i := moves ! 0]))
            else if te \<noteq> None \<and> j < length moves \<and> te0_ms (the te) = [] then Inl IndexOutOfRange
            else if te \<noteq> None \<and> j < length moves \<and> Equal (hd (te0_ms (the te))) mv
              then reorderFrom pv0 te (i + 1) (j + 1) (moves[j := moves ! i, i := moves ! j])
            else if j < length moves \<and> X mv = X pv0 \<and> Y mv = Y pv0
              then reorderFrom pv0 te (i + 1) (j + 1) (moves[j := moves ! i, i := moves ! j])
            else reorderFrom pv0 te (i + 1) j moves)
      else Inr moves)"
  by pat_completeness auto
termination
  by (relation "measure (\<lambda>(pv0, te, i, j, moves). length moves - i)") auto

declare reorderFrom.simps [simp del]

definition reorder :: "Move list \<Rightarrow> tableEntry0 option \<Rightarrow> Move list \<Rightarrow> error + Move list" where
  "reorder pv te moves =
     (case pv of
        [] \<Rightarrow> Inr moves
      | pv0 # _ \<Rightarrow> reorderFrom pv0 te 0 1 moves)"

text \<open>The probe of the table in the older \<open>minimax\<close>: \<open>Some\<close> of what is returned at once.\<close>

definition ttProbe0 ::
  "('r, tableEntry0) MinimaxAI \<Rightarrow> tableEntry0 option \<Rightarrow> nat \<Rightarrow> int \<Rightarrow> int
     \<Rightarrow> (('r, tableEntry0) MinimaxAI \<times> Move list \<times> int) option" where
  "ttProbe0 ai te d \<alpha> \<beta> =
     (case te of
        None \<Rightarrow> None
      | Some e \<Rightarrow>
          if te0_depth e \<ge> d \<and>
             (te0_bound e = exactBound \<or>
              (te0_value e < \<alpha> \<and> te0_bound e = upperBound) \<or>
              (te0_value e > \<beta> \<and> te0_bound e = lowerBound))
          then Some (ai\<lparr>st := (st ai)\<lparr>TTHits := TTHits (st ai) + 1\<rparr>\<rparr>, te0_ms e, te0_value e)
          else if te0_bound e = exactBound \<and>
                  (te0_value e > WinThreshold \<or> te0_value e < - WinThreshold)
          then Some (ai\<lparr>st := (st ai)\<lparr>TTHits := TTHits (st ai) + 1\<rparr>\<rparr>, te0_ms e, te0_value e)
          else None)"

type_synonym ('p, 'r) search0 =
  "('r, tableEntry0) MinimaxAI \<Rightarrow> 'p \<Rightarrow> Move list \<Rightarrow> int \<Rightarrow> int
     \<Rightarrow> error + ('r, tableEntry0) MinimaxAI \<times> Move list \<times> int"

text \<open>
  The move loop \<open>for i, m := range moves\<close> of the older \<open>minimax\<close>, from index \<open>i\<close> on; a
  move that the rule engine rejects is skipped.
\<close>

fun searchMoves0 ::
  "('p, 'r) search0 \<Rightarrow> 'p tak \<Rightarrow> 'p \<Rightarrow> int \<Rightarrow> Move list \<Rightarrow> nat
     \<Rightarrow> ('r, tableEntry0) MinimaxAI \<Rightarrow> Move list \<Rightarrow> int \<Rightarrow> bool
     \<Rightarrow> error + ('r, tableEntry0) MinimaxAI \<times> Move list \<times> int \<times> bool" where
  "searchMoves0 search T p \<beta> [] i ai best \<alpha> improved = Inr (ai, best, \<alpha>, improved)"
| "searchMoves0 search T p \<beta> (mv # rest) i ai best \<alpha> improved =
     (case pMove T p mv of
        None \<Rightarrow> searchMoves0 search T p \<beta> rest (i + 1) ai best \<alpha> improved
      | Some child \<Rightarrow>
          let newpv = (if best \<noteq> [] then tl best else [])
          in case search ai child newpv (- \<beta>) (- \<alpha>) of
               Inl e \<Rightarrow> Inl e
             | Inr (ai1, ms, v0) \<Rightarrow>
                 let v = - v0;
                     best1 = (if best = [] then mv # ms else best)
                 in if v > \<alpha> then
                      (if v \<ge> \<beta> then
                         (let s0 = st ai1;
                              s1 = s0\<lparr>CutSearch := CutSearch s0 + (i + 1), CutNodes := CutNodes s0 + 1\<rparr>;
                              s2 = (if i = 0 then s1\<lparr>Cut0 := Cut0 s1 + 1\<rparr> else s1)
                          in Inr (ai1\<lparr>st := s2\<rparr>, mv # ms, v, True))
                       else searchMoves0 search T p \<beta> rest (i + 1) ai1 (mv # ms) v True)
                    else searchMoves0 search T p \<beta> rest (i + 1) ai1 best1 \<alpha> improved)"

definition storeResult0 ::
  "('r, tableEntry0) MinimaxAI \<Rightarrow> 64 word \<Rightarrow> nat \<Rightarrow> Move list \<Rightarrow> int \<Rightarrow> int \<Rightarrow> bool
     \<Rightarrow> ('r, tableEntry0) MinimaxAI" where
  "storeResult0 ai h d best \<alpha> \<beta> improved =
     (let e = \<lparr> te0_hash = h, te0_depth = d, te0_value = \<alpha>,
                te0_bound = (if \<not> improved then upperBound
                             else if \<alpha> \<ge> \<beta> then lowerBound else exactBound),
                te0_ms = best \<rparr>;
          ai1 = ttPut ai h e
      in if \<not> improved
         then ai1\<lparr>st := (st ai1)\<lparr>AllNodes := AllNodes (st ai1) + 1\<rparr>\<rparr>
         else ai1)"

fun minimax0 ::
  "'p tak \<Rightarrow> ('p \<Rightarrow> error + int) \<Rightarrow> ('r \<Rightarrow> int \<Rightarrow> int \<times> 'r)
     \<Rightarrow> ('r, tableEntry0) MinimaxAI \<Rightarrow> 'p \<Rightarrow> nat \<Rightarrow> nat \<Rightarrow> Move list \<Rightarrow> int \<Rightarrow> int
     \<Rightarrow> error + ('r, tableEntry0) MinimaxAI \<times> Move list \<times> int" where
  "minimax0 T ev int31n ai p ply d pv \<alpha> \<beta> =
     (if d = 0 \<or> fst (pGameOver T p) then
        (case ev p of
           Inl e \<Rightarrow> Inl e
         | Inr v \<Rightarrow> Inr (ai\<lparr>st := (st ai)\<lparr>Evaluated := Evaluated (st ai) + 1\<rparr>\<rparr>, [], v))
      else
        (let moves = pAllMoves T p;
             ai1 = ai\<lparr>st := (st ai)\<lparr>Visited := Visited (st ai) + 1,
                                     Generated := Generated (st ai) + length moves\<rparr>\<rparr>
         in case (if ply = 0 then shuffle int31n (length moves - 1) (rand ai1) moves
                  else Inr (moves, rand ai1)) of
              Inl e \<Rightarrow> Inl e
            | Inr (moves1, r1) \<Rightarrow>
                let ai2 = ai1\<lparr>rand := r1\<rparr>;
                    te = ttGet0 ai2 (pHash T p)
                in case ttProbe0 ai2 te d \<alpha> \<beta> of
                     Some r \<Rightarrow> Inr r
                   | None \<Rightarrow>
                       (case reorder pv te moves1 of
                          Inl e \<Rightarrow> Inl e
                        | Inr moves2 \<Rightarrow>
                       (case searchMoves0
                               (\<lambda>a child newpv lo hi. minimax0 T ev int31n a child (ply + 1) (d - 1) newpv lo hi)
                               T p \<beta> moves2 0 ai2 pv \<alpha> False of
                          Inl e \<Rightarrow> Inl e
                        | Inr (ai3, best, \<alpha>', improved) \<Rightarrow>
                            Inr (storeResult0 ai3 (pHash T p) d best \<alpha>' \<beta> improved, best, \<alpha>')))))"

declare minimax0.simps [simp del]

function deepen0 ::
  "'p tak \<Rightarrow> 'p MinimaxConfig \<Rightarrow> ('p \<Rightarrow> error + int) \<Rightarrow> ('r \<Rightarrow> int \<Rightarrow> int \<times> 'r)
     \<Rightarrow> (nat \<Rightarrow> int \<times> int) \<Rightarrow> int \<Rightarrow> 'p \<Rightarrow> nat
     \<Rightarrow> nat \<Rightarrow> ('r, tableEntry0) MinimaxAI \<Rightarrow> Move list \<Rightarrow> int \<Rightarrow> nat \<Rightarrow> nat
     \<Rightarrow> error + ('r, tableEntry0) MinimaxAI \<times> Move list \<times> int" where
  "deepen0 T cfg ev int31n clock limit p base i ai ms v prevEval branchSum =
     (if int (i + base) \<le> Depth cfg then
        (case minimax0 T ev int31n (ai\<lparr>st := zeroStats\<lparr>stDepth := i + base\<rparr>\<rparr>)
                p 0 (i + base) ms (minEval - 1) (maxEval + 1) of
           Inl e \<Rightarrow> Inl e
         | Inr (ai1, ms1, v1) \<Rightarrow>
             let branchSum1 = (if i > 1 then branchSum + Evaluated (st ai1) div (prevEval + 1)
                               else branchSum);
                 prevEval1 = Evaluated (st ai1)
             in if v1 > WinThreshold \<or> v1 < - WinThreshold then Inr (ai1, ms1, v1)
                else if int (i + base) \<noteq> Depth cfg \<and> limit \<noteq> 0 \<and>
                        (let branch = (if i > 2 then branchSum1 div (i - 1) else 20)
                         in fst (clock i) + snd (clock i) * int branch > limit)
                then Inr (ai1, ms1, v1)
                else deepen0 T cfg ev int31n clock limit p base (i + 1) ai1 ms1 v1 prevEval1 branchSum1)
      else Inr (ai, ms, v))"
  by pat_completeness auto
termination
  by (relation "measure (\<lambda>(T, cfg, ev, int31n, clock, limit, p, base, i, rest). nat (Depth cfg - int (i + base) + 1))")
     auto

declare deepen0.simps [simp del]

definition Analyze0 ::
  "'p tak \<Rightarrow> 'p MinimaxConfig \<Rightarrow> ('p \<Rightarrow> error + int) \<Rightarrow> ('r \<Rightarrow> int \<Rightarrow> int \<times> 'r)
     \<Rightarrow> (int \<Rightarrow> 'r) \<Rightarrow> int \<Rightarrow> (nat \<Rightarrow> int \<times> int)
     \<Rightarrow> ('r, tableEntry0) MinimaxAI \<Rightarrow> 'p \<Rightarrow> int
     \<Rightarrow> error + ('r, tableEntry0) MinimaxAI \<times> Move list \<times> int \<times> Stats" where
  "Analyze0 T cfg ev int31n newRand now clock ai p limit =
     (if Size cfg \<noteq> pSize T p then Inl WrongSize
      else
        let seed = (if Seed cfg = 0 then now else Seed cfg);
            ai1 = ai\<lparr>rand := newRand seed\<rparr>;
            te = ttGet0 ai1 (pHash T p);
            base = (case te of Some e \<Rightarrow> if te0_bound e = exactBound then te0_depth e else 0
                    | None \<Rightarrow> 0);
            ms = (case te of Some e \<Rightarrow> if te0_bound e = exactBound then te0_ms e else []
                  | None \<Rightarrow> [])
        in case deepen0 T cfg ev int31n clock limit p base 1 ai1 ms 0 0 0 of
             Inl e \<Rightarrow> Inl e
           | Inr (ai2, ms1, v1) \<Rightarrow> Inr (ai2, ms1, v1, st ai2))"

definition GetMove0 ::
  "'p tak \<Rightarrow> 'p MinimaxConfig \<Rightarrow> ('p \<Rightarrow> error + int) \<Rightarrow> ('r \<Rightarrow> int \<Rightarrow> int \<times> 'r)
     \<Rightarrow> (int \<Rightarrow> 'r) \<Rightarrow> int \<Rightarrow> (nat \<Rightarrow> int \<times> int)
     \<Rightarrow> ('r, tableEntry0) MinimaxAI \<Rightarrow> 'p \<Rightarrow> int
     \<Rightarrow> error + ('r, tableEntry0) MinimaxAI \<times> Move" where
  "GetMove0 T cfg ev int31n newRand now clock ai p limit =
     (case Analyze0 T cfg ev int31n newRand now clock ai p limit of
        Inl e \<Rightarrow> Inl e
      | Inr (ai1, ms, v, stats) \<Rightarrow>
          (case ms of [] \<Rightarrow> Inl IndexOutOfRange | mv # _ \<Rightarrow> Inr (ai1, mv)))"

section \<open>The node searched without null windows, and the negamax value\<close>

text \<open>
  For the comparison of the null-window scheme with direct full-window searches. This
  follows the words of the spec, not the source: \<open>searchMovesDirect\<close> is the move loop of
  \<open>minimax\<close> with every child, first or later, searched once with the full window
  \<open>(-\<beta>, -\<alpha>)\<close>, and \<open>minimaxDirect\<close> is \<open>minimax\<close> at one node with that loop; the children
  themselves are searched by \<open>minimax\<close> as it is.
\<close>

fun searchMovesDirect ::
  "('p, 'r) search \<Rightarrow> 'p MinimaxConfig \<Rightarrow> nat \<Rightarrow> int \<Rightarrow> (Move \<times> 'p) list \<Rightarrow> nat
     \<Rightarrow> ('r, tableEntry) MinimaxAI \<Rightarrow> Move list \<Rightarrow> int \<Rightarrow> bool
     \<Rightarrow> error + ('r, tableEntry) MinimaxAI \<times> Move list \<times> int \<times> bool" where
  "searchMovesDirect search cfg d \<beta> [] i0 ai best \<alpha> improved = Inr (ai, best, \<alpha>, improved)"
| "searchMovesDirect search cfg d \<beta> ((mv, child) # rest) i0 ai best \<alpha> improved =
     (let i = i0 + 1;
          newpv = (if best \<noteq> [] then tl best else [])
      in case search ai child newpv (- \<beta>) (- \<alpha>) of
           Inl e \<Rightarrow> Inl e
         | Inr (ai1, ms, v0) \<Rightarrow>
             let v = - v0;
                 best1 = (if best = [] then mv # ms else best)
             in if v > \<alpha> then
                  (if v \<ge> \<beta> then
                     (case recordCut cfg d i mv ai1 of
                        Inl e \<Rightarrow> Inl e
                      | Inr ai2 \<Rightarrow> Inr (ai2, mv # ms, v, True))
                   else searchMovesDirect search cfg d \<beta> rest i ai1 (mv # ms) v True)
                else searchMovesDirect search cfg d \<beta> rest i ai1 best1 \<alpha> improved)"

definition minimaxDirect ::
  "'p tak \<Rightarrow> 'p MinimaxConfig \<Rightarrow> ('p \<Rightarrow> error + int) \<Rightarrow> ('p, 'r) moveGenerator
     \<Rightarrow> ('r, tableEntry) MinimaxAI \<Rightarrow> 'p \<Rightarrow> nat \<Rightarrow> nat \<Rightarrow> Move list \<Rightarrow> int \<Rightarrow> int
     \<Rightarrow> error + ('r, tableEntry) MinimaxAI \<times> Move list \<times> int" where
  "minimaxDirect T cfg ev gen ai p ply d pv \<alpha> \<beta> =
     (if d = 0 \<or> fst (pGameOver T p) then minimax T cfg ev gen ai p ply d pv \<alpha> \<beta>
      else
        (let ai1 = ai\<lparr>st := (st ai)\<lparr>Visited := Visited (st ai) + 1\<rparr>\<rparr>
         in case ttProbe T cfg ai1 p d \<alpha> \<beta> of
              Some r \<Rightarrow> Inr r
            | None \<Rightarrow>
                (case gen ai1 ply d p (teAfterProbe cfg ai1 (pHash T p) d \<alpha> \<beta>) pv of
                   (moves, ai2) \<Rightarrow>
                (case searchMovesDirect
                        (\<lambda>a child newpv lo hi. minimax T cfg ev gen a child (ply + 1) (d - 1) newpv lo hi)
                        cfg d \<beta> moves 0 ai2 pv \<alpha> False of
                   Inl e \<Rightarrow> Inl e
                 | Inr (ai3, best, \<alpha>', improved) \<Rightarrow>
                     (case storeResult ai3 (pHash T p) d best \<alpha>' \<beta> improved of
                        Inl e \<Rightarrow> Inl e
                      | Inr ai4 \<Rightarrow> Inr (ai4, best, \<alpha>'))))))"

text \<open>
  The legal moves of a position with their children, in the order of \<open>AllMoves\<close>; a move
  generator is complete when it yields exactly these, in whatever order. \<open>negamax\<close> is
  the value of the game tree cut at depth \<open>d\<close>, with \<open>valOf ev\<close> at the leaves; \<open>loopVal\<close>
  is the value a move loop arrives at for a list of children with these values:
  a child at or below \<open>\<alpha>\<close> changes nothing, a child inside the window raises \<open>\<alpha>\<close>, a child
  at or above \<open>\<beta>\<close> ends the loop, with its own value when it is a leaf and with \<open>\<beta>\<close>
  when it has been searched. \<open>sound\<close> relates what a search returns for a window to the
  negamax value.
\<close>

definition legalMoves :: "'p tak \<Rightarrow> 'p \<Rightarrow> (Move \<times> 'p) list" where
  "legalMoves T p = List.map_filter (\<lambda>mv. map_option (Pair mv) (pMove T p mv)) (pAllMoves T p)"

definition completeGen :: "'p tak \<Rightarrow> ('p, 'r) moveGenerator \<Rightarrow> bool" where
  "completeGen T gen \<longleftrightarrow>
     (\<forall>ai ply d p te pv. set (fst (gen ai ply d p te pv)) = set (legalMoves T p))"

definition valOf :: "('p \<Rightarrow> error + int) \<Rightarrow> 'p \<Rightarrow> int" where
  "valOf ev q = (case ev q of Inr v \<Rightarrow> v | Inl e \<Rightarrow> 0)"

fun negamax :: "'p tak \<Rightarrow> ('p \<Rightarrow> error + int) \<Rightarrow> nat \<Rightarrow> 'p \<Rightarrow> int" where
  "negamax T ev 0 p = valOf ev p"
| "negamax T ev (Suc d) p =
     (if fst (pGameOver T p) then valOf ev p
      else Max ((\<lambda>mc. - negamax T ev d (snd mc)) ` set (legalMoves T p)))"

fun loopVal :: "'p tak \<Rightarrow> ('p \<Rightarrow> error + int) \<Rightarrow> nat \<Rightarrow> int \<Rightarrow> int \<Rightarrow> 'p list \<Rightarrow> int" where
  "loopVal T ev d \<alpha> \<beta> [] = \<alpha>"
| "loopVal T ev d \<alpha> \<beta> (c # cs) =
     (let t = - negamax T ev d c
      in if t \<le> \<alpha> then loopVal T ev d \<alpha> \<beta> cs
         else if t < \<beta> then loopVal T ev d t \<beta> cs
         else if d = 0 \<or> fst (pGameOver T c) then t else \<beta>)"

definition sound :: "'p tak \<Rightarrow> ('p \<Rightarrow> error + int) \<Rightarrow> nat \<Rightarrow> 'p \<Rightarrow> int \<Rightarrow> int \<Rightarrow> int \<Rightarrow> bool" where
  "sound T ev d p lo hi r \<longleftrightarrow>
     (if d = 0 \<or> fst (pGameOver T p) then r = negamax T ev d p
      else (negamax T ev d p \<le> lo \<longrightarrow> r = lo) \<and>
           (lo < negamax T ev d p \<and> negamax T ev d p < hi \<longrightarrow> r = negamax T ev d p) \<and>
           (hi \<le> negamax T ev d p \<longrightarrow> hi \<le> r \<and> r \<le> negamax T ev d p))"

section \<open>A small game, for running the definitions\<close>

text \<open>
  A rule engine on a 5x5 board with the positions 0, 1, 2, ... Position 0 (White to
  move) has the moves \<open>mvA\<close> to position 1 and \<open>mvB\<close> to position 2; position 1 (Black
  to move) has the move \<open>mvC\<close> to position 3; position 3 (White to move) has the move
  \<open>mvB\<close> to position 4. Position 2 and every position from 4 on is a finished game, won
  by the move White has just made, with 16 white stones left in reserve. The board
  content is left empty, so that the non-terminal evaluation is the tempo bonus alone.
  \<open>plainGen\<close> is a move generator that yields the legal moves in the order of \<open>AllMoves\<close>
  and counts them.
\<close>

definition mvA :: Move where
  "mvA = \<lparr> X = 0, Y = 0, Type = PlaceFlat, Slides = [] \<rparr>"

definition mvB :: Move where
  "mvB = \<lparr> X = 1, Y = 0, Type = PlaceFlat, Slides = [] \<rparr>"

definition mvC :: Move where
  "mvC = \<lparr> X = 2, Y = 0, Type = PlaceFlat, Slides = [] \<rparr>"

definition toyT :: "nat tak" where
  "toyT = \<lparr>
     pSize = (\<lambda>p. 5),
     pToMove = (\<lambda>p. if p = 0 \<or> p = 3 then White else Black),
     pMoveNumber = (\<lambda>p. if p = 0 then 8 else if p = 3 then 10 else if p = 4 then 11 else 9),
     pHash = (\<lambda>p. of_nat p + 1),
     pGameOver = (\<lambda>p. if p = 2 \<or> 4 \<le> p then (True, White) else (False, NoColor)),
     pAllMoves = (\<lambda>p. if p = 0 then [mvA, mvB] else if p = 1 then [mvC]
                     else if p = 3 then [mvB] else []),
     pMove = (\<lambda>p mv. if p = 0 \<and> mv = mvA then Some 1
                      else if p = 0 \<and> mv = mvB then Some 2
                      else if p = 1 \<and> mv = mvC then Some 3
                      else if p = 3 \<and> mv = mvB then Some 4 else None),
     pWhiteStones = (\<lambda>p. 16),
     pBlackStones = (\<lambda>p. 17),
     pWhite = (\<lambda>p. 0),
     pBlack = (\<lambda>p. 0),
     pCaps = (\<lambda>p. 0),
     pStanding = (\<lambda>p. 0),
     pHeight = (\<lambda>p. []),
     pStacks = (\<lambda>p. []),
     pAnalysis = (\<lambda>p. ([], [])) \<rparr>"

definition toyB :: "unit bitboard" where
  "toyB = \<lparr> Precompute = (\<lambda>n. ()), Popcount = (\<lambda>b. 0), Grow = (\<lambda>c w b. 0),
            Dimensions = (\<lambda>c b. (0, 0)) \<rparr>"

definition toyCfg :: "int \<Rightarrow> nat MinimaxConfig" where
  "toyCfg n = \<lparr> Size = 5, Depth = n, Debug = 0, Seed = 1, NoSort = False, NoTable = False,
                Evaluate = None \<rparr>"

definition toyEval :: "nat \<Rightarrow> error + int" where
  "toyEval = ai_evaluate toyT toyB (toyCfg 1)"

definition plainGen :: "'p tak \<Rightarrow> ('p, 'r) moveGenerator" where
  "plainGen T ai ply d p te pv =
     (List.map_filter (\<lambda>mv. map_option (Pair mv) (pMove T p mv)) (pAllMoves T p),
      ai\<lparr>st := (st ai)\<lparr>Generated := Generated (st ai) + length (pAllMoves T p)\<rparr>\<rparr>)"

definition toyClock :: "nat \<Rightarrow> int \<times> int" where
  "toyClock i = (0, 0)"

definition toyRand :: "int \<Rightarrow> unit" where
  "toyRand seed = ()"

definition toyInt31n :: "unit \<Rightarrow> int \<Rightarrow> int \<times> unit" where
  "toyInt31n r n = (0, r)"

text \<open>
  A second game, without cycles, in which one position is reached along two paths of
  different length: position 0 has the moves \<open>mvA\<close> to the finished game 1 and \<open>mvB\<close> to
  position 3; position 3 has \<open>mvA\<close> to position 6 and \<open>mvB\<close> to position 4; from there on
  \<open>mvA\<close> leads from 4 to 5, from 5 to 6, from 6 to 7 and from 7 to the finished game 8.
  \<open>dagEval\<close> is the evaluation function given as \<open>cfg.Evaluate\<close>.
\<close>

definition dagT :: "nat tak" where
  "dagT = \<lparr>
     pSize = (\<lambda>p. 5),
     pToMove = (\<lambda>p. if p = 0 \<or> p = 4 \<or> p = 6 \<or> p = 8 then White else Black),
     pMoveNumber = (\<lambda>p. int p),
     pHash = (\<lambda>p. of_nat p + 1),
     pGameOver = (\<lambda>p. if p = 1 \<or> p = 8 then (True, NoColor) else (False, NoColor)),
     pAllMoves = (\<lambda>p. if p = 0 \<or> p = 3 then [mvA, mvB]
                     else if p = 4 \<or> p = 5 \<or> p = 6 \<or> p = 7 then [mvA] else []),
     pMove = (\<lambda>p mv. if p = 0 \<and> mv = mvA then Some 1
                      else if p = 0 \<and> mv = mvB then Some 3
                      else if p = 3 \<and> mv = mvA then Some 6
                      else if p = 3 \<and> mv = mvB then Some 4
                      else if p = 4 \<and> mv = mvA then Some 5
                      else if p = 5 \<and> mv = mvA then Some 6
                      else if p = 6 \<and> mv = mvA then Some 7
                      else if p = 7 \<and> mv = mvA then Some 8 else None),
     pWhiteStones = (\<lambda>p. 16),
     pBlackStones = (\<lambda>p. 16),
     pWhite = (\<lambda>p. 0),
     pBlack = (\<lambda>p. 0),
     pCaps = (\<lambda>p. 0),
     pStanding = (\<lambda>p. 0),
     pHeight = (\<lambda>p. []),
     pStacks = (\<lambda>p. []),
     pAnalysis = (\<lambda>p. ([], [])) \<rparr>"

definition dagEval :: "nat \<Rightarrow> error + int" where
  "dagEval q = Inr (if q = 0 then 1 else if q = 1 then - 1 else if q = 3 then 1
                    else if q = 4 then - 1 else if q = 5 then - 2 else if q = 6 then 2
                    else if q = 7 then - 1 else if q = 8 then 2 else 0)"

definition dagCfg :: "int \<Rightarrow> nat MinimaxConfig" where
  "dagCfg n = \<lparr> Size = 5, Depth = n, Debug = 0, Seed = 1, NoSort = False, NoTable = False,
                Evaluate = Some dagEval \<rparr>"

text \<open>
  Searcher states over this game. \<open>teHit\<close> is the entry that a depth-1 search of
  position 1 stores (its only move leads to a position worth the tempo bonus 250 to the
  opponent); \<open>teUpper\<close> is an upper bound 0 for the same position. \<open>aiWarm\<close> is the
  searcher after one \<open>Analyze\<close> of position 1 with \<open>Depth = 1\<close>. The names ending in \<open>0\<close>
  are the same for the older variant.
\<close>

definition teHit :: tableEntry where
  "teHit = \<lparr> te_hash = 2, te_depth = 1, te_value = - 250, te_bound = exactBound, te_m = mvC \<rparr>"

definition aiHit :: "(unit, tableEntry) MinimaxAI" where
  "aiHit = ttPut (NewMinimax (toyCfg 1) ()) 2 teHit"

definition teUpper :: tableEntry where
  "teUpper = \<lparr> te_hash = 2, te_depth = 1, te_value = 0, te_bound = upperBound, te_m = mvC \<rparr>"

definition aiUpper :: "(unit, tableEntry) MinimaxAI" where
  "aiUpper = ttPut (NewMinimax (toyCfg 1) ()) 2 teUpper"

definition warmStats :: Stats where
  "warmStats = zeroStats\<lparr>stDepth := 1, Generated := 1, Evaluated := 1, Visited := 1\<rparr>"

definition aiWarm :: "(unit, tableEntry) MinimaxAI" where
  "aiWarm = (ttPut (NewMinimax (toyCfg 1) ()) 2 teHit)\<lparr>st := warmStats\<rparr>"

definition teHit0 :: tableEntry0 where
  "teHit0 = \<lparr> te0_hash = 2, te0_depth = 1, te0_value = - 250, te0_bound = exactBound,
              te0_ms = [mvC] \<rparr>"

definition aiHit0 :: "(unit, tableEntry0) MinimaxAI" where
  "aiHit0 = ttPut (NewMinimax0 (toyCfg 1) ()) 2 teHit0"

definition aiWarm0 :: "(unit, tableEntry0) MinimaxAI" where
  "aiWarm0 = (ttPut (NewMinimax0 (toyCfg 1) ()) 2 teHit0)\<lparr>st := warmStats\<rparr>"

text \<open>
  Moves on the square (1, 1) for the reordering loop: two slides of a stack and two
  placements.
\<close>

definition mvS :: Move where
  "mvS = \<lparr> X = 1, Y = 1, Type = SlideLeft, Slides = [1] \<rparr>"

definition mvS2 :: Move where
  "mvS2 = \<lparr> X = 1, Y = 1, Type = SlideUp, Slides = [1] \<rparr>"

definition mvP :: Move where
  "mvP = \<lparr> X = 1, Y = 1, Type = PlaceFlat, Slides = [] \<rparr>"

definition mvP2 :: Move where
  "mvP2 = \<lparr> X = 1, Y = 1, Type = PlaceStanding, Slides = [] \<rparr>"

text \<open>
  Modelled from the spec: the contract of the move generator, whose source is not at
  hand. The search iterates the legal moves of the node, each with the child position
  the rule engine yields for it; a non-terminal position produces at least one move;
  the moves lie on the board (so the index into the heat map is in range); generating
  moves leaves the table and the heat map as they are.
\<close>

definition legalGen :: "'p tak \<Rightarrow> 'p MinimaxConfig \<Rightarrow> ('p, 'r) moveGenerator \<Rightarrow> bool" where
  "legalGen T cfg gen \<longleftrightarrow>
     (\<forall>ai ply d p te pv.
        (\<not> fst (pGameOver T p) \<longrightarrow> fst (gen ai ply d p te pv) \<noteq> []) \<and>
        (\<forall>mc \<in> set (fst (gen ai ply d p te pv)).
           pMove T p (fst mc) = Some (snd mc) \<and>
           0 \<le> X (fst mc) + Y (fst mc) * Size cfg \<and>
           X (fst mc) + Y (fst mc) * Size cfg < Size cfg * Size cfg) \<and>
        heatMap (snd (gen ai ply d p te pv)) = heatMap ai \<and>
        table (snd (gen ai ply d p te pv)) = table ai)"

text \<open>
  The interval \<open>[minEval, maxEval]\<close> of the claims about the range of values, for a value
  and for every value stored in the table.
\<close>

definition inRange :: "int \<Rightarrow> bool" where
  "inRange v \<longleftrightarrow> minEval \<le> v \<and> v \<le> maxEval"

definition tableInRange :: "('r, tableEntry) MinimaxAI \<Rightarrow> bool" where
  "tableInRange ai \<longleftrightarrow> (\<forall>k. inRange (te_value (table ai k)))"

text \<open>
  An evaluation function for \<open>cfg.Evaluate\<close> with small values, and the searcher after
  a depth-1 search of position 0 with it.
\<close>

definition toyEval2 :: "nat \<Rightarrow> error + int" where
  "toyEval2 q = Inr (if q = 1 then 250 else if q = 2 then - 300 else 0)"

definition aiSearched :: "(unit, tableEntry) MinimaxAI" where
  "aiSearched =
     (ttPut (NewMinimax (toyCfg 1) ()) 1
        \<lparr> te_hash = 1, te_depth = 1, te_value = 300, te_bound = exactBound, te_m = mvB \<rparr>)
     \<lparr>st := zeroStats\<lparr>Generated := 2, Evaluated := 3, Terminal := 2, Visited := 1\<rparr>\<rparr>"

section \<open>Basic facts\<close>

lemmas toy_defs = toyT_def toyB_def toyCfg_def toyEval_def plainGen_def toyClock_def toyRand_def
  toyInt31n_def mvA_def mvB_def mvC_def ai_evaluate_def evaluate_def DefaultWeights_def
  NewMinimax_def NewMinimax0_def zeroStats_def zeroEntry_def zeroEntry0_def zeroMove_def
  ttGet_def ttGet0_def ttPut_def tableSize_def teSuffices_def ttProbe_def teAfterProbe_def
  storeResult_def storeResult0_def recordCut_def searchChild_def ttProbe0_def reorder_def
  maxEval_def minEval_def WinThreshold_def List.map_filter_def Let_def
  teHit_def aiHit_def teUpper_def aiUpper_def warmStats_def aiWarm_def teHit0_def aiHit0_def
  aiWarm0_def toyEval2_def aiSearched_def dagT_def dagEval_def dagCfg_def

lemma ttGet_upd [simp]:
  "ttGet cfg (ai\<lparr>st := s\<rparr>) h = ttGet cfg ai h"
  "ttGet cfg (ai\<lparr>rand := r\<rparr>) h = ttGet cfg ai h"
  "ttGet cfg (ai\<lparr>heatMap := hm\<rparr>) h = ttGet cfg ai h"
  by (simp_all add: ttGet_def)

lemma ttGet0_upd [simp]:
  "ttGet0 (ai\<lparr>st := s\<rparr>) h = ttGet0 ai h"
  "ttGet0 (ai\<lparr>rand := r\<rparr>) h = ttGet0 ai h"
  "ttGet0 (ai\<lparr>heatMap := hm\<rparr>) h = ttGet0 ai h"
  by (simp_all add: ttGet0_def)

lemma minimax_leaf:
  "d = 0 \<or> fst (pGameOver T p) \<Longrightarrow> ev p = Inr s \<Longrightarrow>
   \<exists>ai'. minimax T cfg ev gen ai p ply d pv \<alpha> \<beta> = Inr (ai', [], s)"
  by (subst minimax.simps) (simp add: Let_def)

text \<open>The move loops only ever raise \<open>\<alpha>\<close>, and \<open>improved\<close> records whether they did.\<close>

lemma searchMoves_improved:
  "searchMoves search cfg d \<beta> moves i0 ai best \<alpha> improved = Inr (ai', best', \<alpha>', improved')
   \<Longrightarrow> \<alpha> \<le> \<alpha>' \<and> (improved' \<longleftrightarrow> improved \<or> \<alpha> < \<alpha>')"
proof (induction moves arbitrary: i0 ai best \<alpha> improved)
  case Nil
  then show ?case by simp
next
  case (Cons a moves)
  obtain mv child where a: "a = (mv, child)" by (cases a)
  from Cons.prems show ?case
    unfolding a
    by (auto simp: Let_def split: sum.splits if_splits prod.splits dest!: Cons.IH)
qed

lemma searchMoves0_improved:
  "searchMoves0 search T p \<beta> moves i ai best \<alpha> improved = Inr (ai', best', \<alpha>', improved')
   \<Longrightarrow> \<alpha> \<le> \<alpha>' \<and> (improved' \<longleftrightarrow> improved \<or> \<alpha> < \<alpha>')"
proof (induction moves arbitrary: i ai best \<alpha> improved)
  case Nil
  then show ?case by simp
next
  case (Cons mv moves)
  from Cons.prems show ?case
    by (auto simp: Let_def split: sum.splits if_splits prod.splits option.splits dest!: Cons.IH)
qed

section \<open>Properties of the evaluator\<close>

text \<open>
  C5. On a terminal position (\<open>GameOver()\<close> reports true) the evaluator returns exactly
  0 when there is no winner, \<open>maxEval - move_number + stones\<close> when the winner is the
  side to move, and \<open>minEval + move_number - stones\<close> otherwise, where \<open>stones\<close> is the
  stone count of the winning colour.
\<close>

theorem evaluate_terminal:
  "pGameOver T p = (True, winner) \<Longrightarrow>
   evaluate T B w c p =
     (let stones = (case winner of White \<Rightarrow> pWhiteStones T p | _ \<Rightarrow> pBlackStones T p)
      in if winner = NoColor then Inr 0
         else if winner = pToMove T p then Inr (maxEval - pMoveNumber T p + stones)
         else Inr (minEval + pMoveNumber T p - stones))"
  by (cases winner) (simp_all add: evaluate_def)

theorem evaluate_terminal_witness:
  "pGameOver toyT 2 = (True, White) \<and>
   evaluate toyT toyB DefaultWeights () 2 = Inr (minEval + 9 - 16)"
  using evaluate_terminal [of toyT 2 White toyB DefaultWeights "()"]
  by (simp add: toyT_def)

section \<open>Pruning by the transposition table\<close>

text \<open>
  C1, as the code has it. At a node that is searched (depth not 0, game not over) and
  whose table entry \<open>te\<close> matches the hash, \<open>minimax\<close> returns the stored move and value
  at once, counting one visit and one table hit, exactly when \<open>te.depth \<ge> d\<close> and the bound
  is exact, or upper with \<open>te.value < \<alpha>\<close>, or lower with \<open>te.value > \<beta>\<close> (both
  comparisons strict), or when the bound is exact and \<open>|te.value| > WinThreshold\<close>; the
  variant with the move generator moreover requires the stored move to apply to the
  position and returns that one move, the older variant returns the stored line. In
  every other case the probe returns nothing and the search goes on.
\<close>

theorem tt_prune:
  "(d \<noteq> 0 \<longrightarrow> \<not> fst (pGameOver T p) \<longrightarrow> ttGet cfg ai (pHash T p) = Some te \<longrightarrow>
      (if ((te_depth te \<ge> d \<and>
             (te_bound te = exactBound \<or> (te_bound te = upperBound \<and> te_value te < \<alpha>)
              \<or> (te_bound te = lowerBound \<and> te_value te > \<beta>)))
           \<or> (te_bound te = exactBound \<and> \<bar>te_value te\<bar> > WinThreshold))
          \<and> pMove T p (te_m te) \<noteq> None
       then minimax T cfg ev gen ai p ply d pv \<alpha> \<beta> =
              Inr (ai\<lparr>st := (st ai)\<lparr>Visited := Visited (st ai) + 1, TTHits := TTHits (st ai) + 1\<rparr>\<rparr>,
                   [te_m te], te_value te)
       else ttProbe T cfg (ai\<lparr>st := (st ai)\<lparr>Visited := Visited (st ai) + 1\<rparr>\<rparr>) p d \<alpha> \<beta> = None))
   \<and>
   (d \<noteq> 0 \<longrightarrow> \<not> fst (pGameOver T p) \<longrightarrow>
    (if ply = 0 then shuffle int31n (length (pAllMoves T p) - 1) (rand ai0) (pAllMoves T p)
     else Inr (pAllMoves T p, rand ai0)) = Inr (moves1, r1) \<longrightarrow>
    ttGet0 ai0 (pHash T p) = Some te0 \<longrightarrow>
      (if (te0_depth te0 \<ge> d \<and>
             (te0_bound te0 = exactBound \<or> (te0_bound te0 = upperBound \<and> te0_value te0 < \<alpha>)
              \<or> (te0_bound te0 = lowerBound \<and> te0_value te0 > \<beta>)))
           \<or> (te0_bound te0 = exactBound \<and> \<bar>te0_value te0\<bar> > WinThreshold)
       then minimax0 T ev int31n ai0 p ply d pv \<alpha> \<beta> =
              Inr (ai0\<lparr>st := (st ai0)\<lparr>Visited := Visited (st ai0) + 1,
                       Generated := Generated (st ai0) + length (pAllMoves T p),
                       TTHits := TTHits (st ai0) + 1\<rparr>, rand := r1\<rparr>,
                   te0_ms te0, te0_value te0)
       else ttProbe0 ai0 (Some te0) d \<alpha> \<beta> = None))"
proof (intro conjI impI)
  assume d: "d \<noteq> 0" and o: "\<not> fst (pGameOver T p)" and g: "ttGet cfg ai (pHash T p) = Some te"
  have abs: "\<bar>te_value te\<bar> > WinThreshold \<longleftrightarrow> te_value te > WinThreshold \<or> te_value te < - WinThreshold"
    by (auto simp: WinThreshold_def)
  show "if ((te_depth te \<ge> d \<and>
             (te_bound te = exactBound \<or> (te_bound te = upperBound \<and> te_value te < \<alpha>)
              \<or> (te_bound te = lowerBound \<and> te_value te > \<beta>)))
           \<or> (te_bound te = exactBound \<and> \<bar>te_value te\<bar> > WinThreshold))
          \<and> pMove T p (te_m te) \<noteq> None
       then minimax T cfg ev gen ai p ply d pv \<alpha> \<beta> =
              Inr (ai\<lparr>st := (st ai)\<lparr>Visited := Visited (st ai) + 1, TTHits := TTHits (st ai) + 1\<rparr>\<rparr>,
                   [te_m te], te_value te)
       else ttProbe T cfg (ai\<lparr>st := (st ai)\<lparr>Visited := Visited (st ai) + 1\<rparr>\<rparr>) p d \<alpha> \<beta> = None"
    using d o g unfolding abs
    by (subst minimax.simps) (auto simp: ttProbe_def teSuffices_def split: option.splits)
next
  assume d: "d \<noteq> 0" and o: "\<not> fst (pGameOver T p)"
    and sh: "(if ply = 0 then shuffle int31n (length (pAllMoves T p) - 1) (rand ai0) (pAllMoves T p)
     else Inr (pAllMoves T p, rand ai0)) = Inr (moves1, r1)"
    and g: "ttGet0 ai0 (pHash T p) = Some te0"
  have abs: "\<bar>te0_value te0\<bar> > WinThreshold \<longleftrightarrow> te0_value te0 > WinThreshold \<or> te0_value te0 < - WinThreshold"
    by (auto simp: WinThreshold_def)
  show "if (te0_depth te0 \<ge> d \<and>
             (te0_bound te0 = exactBound \<or> (te0_bound te0 = upperBound \<and> te0_value te0 < \<alpha>)
              \<or> (te0_bound te0 = lowerBound \<and> te0_value te0 > \<beta>)))
           \<or> (te0_bound te0 = exactBound \<and> \<bar>te0_value te0\<bar> > WinThreshold)
       then minimax0 T ev int31n ai0 p ply d pv \<alpha> \<beta> =
              Inr (ai0\<lparr>st := (st ai0)\<lparr>Visited := Visited (st ai0) + 1,
                       Generated := Generated (st ai0) + length (pAllMoves T p),
                       TTHits := TTHits (st ai0) + 1\<rparr>, rand := r1\<rparr>,
                   te0_ms te0, te0_value te0)
       else ttProbe0 ai0 (Some te0) d \<alpha> \<beta> = None"
  proof (cases "ply = 0")
    case True
    with sh have sh1: "shuffle int31n (length (pAllMoves T p) - Suc 0) (rand ai0) (pAllMoves T p) = Inr (moves1, r1)"
      by simp
    show ?thesis
      using d o True g unfolding abs
      by (subst minimax0.simps) (auto simp: Let_def sh1 ttProbe0_def)
  next
    case False
    with sh have sh1: "moves1 = pAllMoves T p" "r1 = rand ai0"
      by simp_all
    show ?thesis
      using d o False g unfolding abs
      by (subst minimax0.simps) (auto simp: Let_def sh1 ttProbe0_def)
  qed
qed

theorem tt_prune_witness:
  "ttGet (toyCfg 1) aiHit (pHash toyT 1) = Some teHit \<and>
   minimax toyT (toyCfg 1) toyEval (plainGen toyT) aiHit 1 1 1 [] 0 100 =
     Inr (aiHit\<lparr>st := zeroStats\<lparr>Visited := 1, TTHits := 1\<rparr>\<rparr>, [mvC], - 250) \<and>
   ttGet0 aiHit0 (pHash toyT 1) = Some teHit0 \<and>
   minimax0 toyT toyEval toyInt31n aiHit0 1 1 1 [] 0 100 =
     Inr (aiHit0\<lparr>st := zeroStats\<lparr>Visited := 1, Generated := 1, TTHits := 1\<rparr>\<rparr>, [mvC], - 250)"
  using tt_prune [where d = 1 and T = toyT and p = 1 and cfg = "toyCfg 1" and ai = aiHit
      and te = teHit and \<alpha> = 0 and \<beta> = 100 and ev = toyEval and gen = "plainGen toyT"
      and ply = 1 and pv = "[]" and ?ai0.0 = aiHit0 and ?te0.0 = teHit0 and ?int31n = toyInt31n
      and ?moves1.0 = "[mvC]" and ?r1.0 = "()"]
  by (simp add: toy_defs)

text \<open>
  C1 with non-strict comparisons fails: in \<open>aiUpper\<close> the entry of position 1 is an upper
  bound 0 of depth 1, and the node is searched at depth 1 with the window \<open>(0, 100)\<close>, so
  \<open>te.value \<le> \<alpha>\<close>; the search evaluates the child and counts no table hit.
\<close>

theorem tt_prune_counterexample:
  "ttGet (toyCfg 1) aiUpper (pHash toyT 1) = Some teUpper \<and>
   1 \<le> te_depth teUpper \<and> te_bound teUpper = upperBound \<and> te_value teUpper \<le> 0 \<and>
   minimax toyT (toyCfg 1) toyEval (plainGen toyT) aiUpper 1 1 1 [] 0 100 =
     Inr (aiUpper\<lparr>st := zeroStats\<lparr>Visited := 1, Generated := 1, Evaluated := 1, AllNodes := 1\<rparr>\<rparr>,
          [mvC], 0) \<and>
   TTHits (zeroStats\<lparr>Visited := 1, Generated := 1, Evaluated := 1, AllNodes := 1\<rparr>) = 0"
  by (simp add: minimax.simps toy_defs)

section \<open>The entry stored after the move loop\<close>

text \<open>
  C7. When the move loop of an internal node is left with \<open>best\<close>, \<open>\<alpha>'\<close> and \<open>improved\<close>,
  \<open>minimax\<close> returns \<open>(best, \<alpha>')\<close> and the slot of the position's hash holds the hash, the
  depth, the value \<open>\<alpha>'\<close>, the move \<open>best[0]\<close> (the older variant: the line \<open>best\<close>) and the
  bound: upper, with \<open>AllNodes\<close> counted, if no move raised \<open>\<alpha>\<close>; lower if \<open>\<alpha>' \<ge> \<beta>\<close>; exact
  otherwise.
\<close>

theorem table_store:
  "(d \<noteq> 0 \<longrightarrow> \<not> fst (pGameOver T p) \<longrightarrow>
    ttProbe T cfg (ai\<lparr>st := (st ai)\<lparr>Visited := Visited (st ai) + 1\<rparr>\<rparr>) p d \<alpha> \<beta> = None \<longrightarrow>
    gen (ai\<lparr>st := (st ai)\<lparr>Visited := Visited (st ai) + 1\<rparr>\<rparr>) ply d p
        (teAfterProbe cfg (ai\<lparr>st := (st ai)\<lparr>Visited := Visited (st ai) + 1\<rparr>\<rparr>) (pHash T p) d \<alpha> \<beta>) pv
      = (moves, ai2) \<longrightarrow>
    searchMoves (\<lambda>a child newpv lo hi. minimax T cfg ev gen a child (ply + 1) (d - 1) newpv lo hi)
        cfg d \<beta> moves 0 ai2 pv \<alpha> False = Inr (ai3, best, \<alpha>', improved) \<longrightarrow>
    best \<noteq> [] \<longrightarrow>
    (\<exists>ai4. minimax T cfg ev gen ai p ply d pv \<alpha> \<beta> = Inr (ai4, best, \<alpha>') \<and>
       table ai4 (unat (pHash T p mod tableSize)) =
         \<lparr> te_hash = pHash T p, te_depth = d, te_value = \<alpha>',
           te_bound = (if \<alpha>' = \<alpha> then upperBound else if \<alpha>' \<ge> \<beta> then lowerBound else exactBound),
           te_m = hd best \<rparr> \<and>
       AllNodes (st ai4) = AllNodes (st ai3) + (if \<alpha>' = \<alpha> then 1 else 0) \<and>
       (improved \<longleftrightarrow> \<alpha>' \<noteq> \<alpha>)))
   \<and>
   (d \<noteq> 0 \<longrightarrow> \<not> fst (pGameOver T p) \<longrightarrow>
    (if ply = 0 then shuffle int31n (length (pAllMoves T p) - 1) (rand ai0) (pAllMoves T p)
     else Inr (pAllMoves T p, rand ai0)) = Inr (moves1, r1) \<longrightarrow>
    ttProbe0 ai0 (ttGet0 ai0 (pHash T p)) d \<alpha> \<beta> = None \<longrightarrow>
    reorder pv (ttGet0 ai0 (pHash T p)) moves1 = Inr moves2 \<longrightarrow>
    searchMoves0 (\<lambda>a child newpv lo hi. minimax0 T ev int31n a child (ply + 1) (d - 1) newpv lo hi)
        T p \<beta> moves2 0
        (ai0\<lparr>st := (st ai0)\<lparr>Visited := Visited (st ai0) + 1,
                   Generated := Generated (st ai0) + length (pAllMoves T p)\<rparr>, rand := r1\<rparr>)
        pv \<alpha> False = Inr (ai3', best, \<alpha>', improved) \<longrightarrow>
    (\<exists>ai4. minimax0 T ev int31n ai0 p ply d pv \<alpha> \<beta> = Inr (ai4, best, \<alpha>') \<and>
       table ai4 (unat (pHash T p mod tableSize)) =
         \<lparr> te0_hash = pHash T p, te0_depth = d, te0_value = \<alpha>',
           te0_bound = (if \<alpha>' = \<alpha> then upperBound else if \<alpha>' \<ge> \<beta> then lowerBound else exactBound),
           te0_ms = best \<rparr> \<and>
       AllNodes (st ai4) = AllNodes (st ai3') + (if \<alpha>' = \<alpha> then 1 else 0) \<and>
       (improved \<longleftrightarrow> \<alpha>' \<noteq> \<alpha>)))"
proof (intro conjI impI)
  let ?ai1 = "ai\<lparr>st := (st ai)\<lparr>Visited := Visited (st ai) + 1\<rparr>\<rparr>"
  assume d: "d \<noteq> 0" and o: "\<not> fst (pGameOver T p)"
    and pr: "ttProbe T cfg ?ai1 p d \<alpha> \<beta> = None"
    and g: "gen ?ai1 ply d p (teAfterProbe cfg ?ai1 (pHash T p) d \<alpha> \<beta>) pv = (moves, ai2)"
    and l: "searchMoves (\<lambda>a child newpv lo hi. minimax T cfg ev gen a child (ply + 1) (d - 1) newpv lo hi)
        cfg d \<beta> moves 0 ai2 pv \<alpha> False = Inr (ai3, best, \<alpha>', improved)"
    and b: "best \<noteq> []"
  from searchMoves_improved [OF l] have imp: "\<alpha> \<le> \<alpha>'" "improved \<longleftrightarrow> \<alpha> < \<alpha>'" by auto
  obtain b0 bs where bb: "best = b0 # bs" using b by (cases best) auto
  show "\<exists>ai4. minimax T cfg ev gen ai p ply d pv \<alpha> \<beta> = Inr (ai4, best, \<alpha>') \<and>
       table ai4 (unat (pHash T p mod tableSize)) =
         \<lparr> te_hash = pHash T p, te_depth = d, te_value = \<alpha>',
           te_bound = (if \<alpha>' = \<alpha> then upperBound else if \<alpha>' \<ge> \<beta> then lowerBound else exactBound),
           te_m = hd best \<rparr> \<and>
       AllNodes (st ai4) = AllNodes (st ai3) + (if \<alpha>' = \<alpha> then 1 else 0) \<and>
       (improved \<longleftrightarrow> \<alpha>' \<noteq> \<alpha>)"
    using d o pr g l imp
    by (subst minimax.simps) (auto simp: bb storeResult_def ttPut_def Let_def)
next
  let ?ai1 = "ai0\<lparr>st := (st ai0)\<lparr>Visited := Visited (st ai0) + 1,
                   Generated := Generated (st ai0) + length (pAllMoves T p)\<rparr>\<rparr>"
  assume d: "d \<noteq> 0" and o: "\<not> fst (pGameOver T p)"
    and sh: "(if ply = 0 then shuffle int31n (length (pAllMoves T p) - 1) (rand ai0) (pAllMoves T p)
     else Inr (pAllMoves T p, rand ai0)) = Inr (moves1, r1)"
    and pr: "ttProbe0 ai0 (ttGet0 ai0 (pHash T p)) d \<alpha> \<beta> = None"
    and re: "reorder pv (ttGet0 ai0 (pHash T p)) moves1 = Inr moves2"
    and l: "searchMoves0 (\<lambda>a child newpv lo hi. minimax0 T ev int31n a child (ply + 1) (d - 1) newpv lo hi)
        T p \<beta> moves2 0 (?ai1\<lparr>rand := r1\<rparr>) pv \<alpha> False = Inr (ai3', best, \<alpha>', improved)"
  from searchMoves0_improved [OF l] have imp: "\<alpha> \<le> \<alpha>'" "improved \<longleftrightarrow> \<alpha> < \<alpha>'" by auto
  have pr1: "\<And>a. ttProbe0 a (ttGet0 ai0 (pHash T p)) d \<alpha> \<beta> = None"
    using pr by (auto simp: ttProbe0_def split: option.splits if_splits)
  show "\<exists>ai4. minimax0 T ev int31n ai0 p ply d pv \<alpha> \<beta> = Inr (ai4, best, \<alpha>') \<and>
       table ai4 (unat (pHash T p mod tableSize)) =
         \<lparr> te0_hash = pHash T p, te0_depth = d, te0_value = \<alpha>',
           te0_bound = (if \<alpha>' = \<alpha> then upperBound else if \<alpha>' \<ge> \<beta> then lowerBound else exactBound),
           te0_ms = best \<rparr> \<and>
       AllNodes (st ai4) = AllNodes (st ai3') + (if \<alpha>' = \<alpha> then 1 else 0) \<and>
       (improved \<longleftrightarrow> \<alpha>' \<noteq> \<alpha>)"
  proof (cases "ply = 0")
    case True
    with sh have sh1: "shuffle int31n (length (pAllMoves T p) - Suc 0) (rand ai0) (pAllMoves T p) = Inr (moves1, r1)"
      by simp
    show ?thesis
      using d o imp True l re
      by (subst minimax0.simps) (simp add: Let_def sh1 pr1 storeResult0_def ttPut_def)
  next
    case False
    with sh have sh1: "moves1 = pAllMoves T p" "r1 = rand ai0"
      by simp_all
    show ?thesis
      using d o imp False l re
      by (subst minimax0.simps) (simp add: Let_def sh1 pr1 storeResult0_def ttPut_def)
  qed
qed

theorem table_store_witness:
  "(\<exists>ai4. minimax toyT (toyCfg 1) toyEval (plainGen toyT) (NewMinimax (toyCfg 1) ()) 1 1 1 []
            (- 1000) 1000 = Inr (ai4, [mvC], - 250) \<and>
          table ai4 2 = teHit \<and> AllNodes (st ai4) = 0) \<and>
   (\<exists>ai4. minimax0 toyT toyEval toyInt31n (NewMinimax0 (toyCfg 1) ()) 1 1 1 []
            (- 1000) 1000 = Inr (ai4, [mvC], - 250) \<and>
          table ai4 2 = teHit0 \<and> AllNodes (st ai4) = 0)"
  using table_store [where d = 1 and T = toyT and p = 1 and cfg = "toyCfg 1"
      and ai = "NewMinimax (toyCfg 1) ()" and \<alpha> = "- 1000" and \<beta> = 1000 and ev = toyEval
      and gen = "plainGen toyT" and ply = 1 and pv = "[]" and moves = "[(mvC, 3)]"
      and ?ai2.0 = "(NewMinimax (toyCfg 1) ())\<lparr>st := zeroStats\<lparr>Visited := 1, Generated := 1\<rparr>\<rparr>"
      and ?ai3.0 = "(NewMinimax (toyCfg 1) ())\<lparr>st := zeroStats\<lparr>Visited := 1, Generated := 1, Evaluated := 1\<rparr>\<rparr>"
      and best = "[mvC]" and \<alpha>' = "- 250" and improved = True and ?int31n = toyInt31n
      and ?ai0.0 = "NewMinimax0 (toyCfg 1) ()" and ?moves1.0 = "[mvC]" and ?r1.0 = "()"
      and ?moves2.0 = "[mvC]"
      and ai3' = "(NewMinimax0 (toyCfg 1) ())\<lparr>st := zeroStats\<lparr>Visited := 1, Generated := 1, Evaluated := 1\<rparr>\<rparr>"]
  by (simp add: toy_defs minimax.simps minimax0.simps reorderFrom.simps)

section \<open>Analyze on a cached root and on a finished game\<close>

text \<open>
  C9, as the code has it. If the entry of the root's hash is exact and its depth is at
  least \<open>cfg.Depth\<close>, the deepening loop does not run: \<open>Analyze\<close> returns the cached move
  (the older variant: the cached line) with the value 0 and the statistics the searcher
  held before the call, unchanged.
\<close>

theorem analyze_cached:
  "(Size cfg = pSize T p \<longrightarrow> ttGet cfg ai (pHash T p) = Some te \<longrightarrow> te_bound te = exactBound \<longrightarrow>
    Depth cfg \<le> int (te_depth te) \<longrightarrow>
    Analyze T cfg ev gen newRand now clock ai p limit =
      Inr (ai\<lparr>heatMap := map (\<lambda>x. x div 2) (heatMap ai),
              rand := newRand (if Seed cfg = 0 then now else Seed cfg)\<rparr>,
           [te_m te], 0, st ai))
   \<and>
   (Size cfg = pSize T p \<longrightarrow> ttGet0 ai0 (pHash T p) = Some te0 \<longrightarrow> te0_bound te0 = exactBound \<longrightarrow>
    Depth cfg \<le> int (te0_depth te0) \<longrightarrow>
    Analyze0 T cfg ev int31n newRand now clock ai0 p limit =
      Inr (ai0\<lparr>rand := newRand (if Seed cfg = 0 then now else Seed cfg)\<rparr>,
           te0_ms te0, 0, st ai0))"
  by (simp add: Analyze_def Analyze0_def deepen.simps deepen0.simps)

theorem analyze_cached_witness:
  "ttGet (toyCfg 1) aiWarm (pHash toyT 1) = Some teHit \<and>
   Analyze toyT (toyCfg 1) toyEval (plainGen toyT) toyRand 0 toyClock aiWarm 1 0 =
     Inr (aiWarm, [mvC], 0, warmStats) \<and>
   ttGet0 aiWarm0 (pHash toyT 1) = Some teHit0 \<and>
   Analyze0 toyT (toyCfg 1) toyEval toyInt31n toyRand 0 toyClock aiWarm0 1 0 =
     Inr (aiWarm0, [mvC], 0, warmStats)"
  using analyze_cached [where cfg = "toyCfg 1" and T = toyT and p = 1 and ai = aiWarm and te = teHit
      and ?ai0.0 = aiWarm0 and ?te0.0 = teHit0 and ev = toyEval and gen = "plainGen toyT"
      and newRand = toyRand and now = 0 and clock = toyClock and limit = 0 and int31n = toyInt31n]
  by (simp add: toy_defs)

text \<open>
  The statistics returned on a cached root are not zeroed: a first \<open>Analyze\<close> of position
  1 leaves the searcher \<open>aiWarm0\<close>, and the second call returns the first call's counts.
\<close>

theorem analyze_cached_counterexample:
  "Analyze0 toyT (toyCfg 1) toyEval toyInt31n toyRand 0 toyClock (NewMinimax0 (toyCfg 1) ()) 1 0 =
     Inr (aiWarm0, [mvC], - 250, warmStats) \<and>
   ttGet0 aiWarm0 (pHash toyT 1) = Some teHit0 \<and> te0_bound teHit0 = exactBound \<and>
   Depth (toyCfg 1) \<le> int (te0_depth teHit0) \<and>
   Analyze0 toyT (toyCfg 1) toyEval toyInt31n toyRand 0 toyClock aiWarm0 1 0 =
     Inr (aiWarm0, [mvC], 0, warmStats) \<and>
   warmStats \<noteq> zeroStats"
  by (simp add: Analyze0_def deepen0.simps minimax0.simps reorderFrom.simps toy_defs)

lemma deepen_terminal:
  "fst (pGameOver T p) \<Longrightarrow> ev p = Inr s \<Longrightarrow>
   int (i + base) \<le> Depth cfg \<or> (ms = [] \<and> v = s) \<Longrightarrow>
   \<exists>ai'. deepen T cfg ev gen clock limit p base i ai ms v prevEval branchSum = Inr (ai', [], s)"
proof (induction T cfg ev gen clock limit p base i ai ms v prevEval branchSum rule: deepen.induct)
  case (1 T cfg ev gen clock limit p base i ai ms v prevEval branchSum)
  show ?case
  proof (cases "int (i + base) \<le> Depth cfg")
    case False
    with "1.prems" show ?thesis by (subst deepen.simps) simp
  next
    case True
    let ?ai0 = "ai\<lparr>st := zeroStats\<lparr>stDepth := i + base\<rparr>\<rparr>"
    obtain ai1 where m: "minimax T cfg ev gen ?ai0 p 0 (i + base) ms (minEval - 1) (maxEval + 1) = Inr (ai1, [], s)"
      using minimax_leaf [of "i + base" T p ev s cfg gen ?ai0 0 ms] "1.prems"(1,2) by blast
    show ?thesis
      using True m "1.IH" [OF True m refl refl refl] "1.prems"(1,2)
      by (subst deepen.simps) (auto simp: Let_def)
  qed
qed

text \<open>
  C10, as the code has it. On a finished game, with a fresh table, matching board size
  and \<open>cfg.Depth \<ge> 1\<close>, \<open>Analyze\<close> returns the empty line with the evaluator's score, and
  \<open>GetMove\<close> fails on \<open>ms[0]\<close>.
\<close>

theorem analyze_terminal:
  "fst (pGameOver T p) \<Longrightarrow> ev p = Inr s \<Longrightarrow> Size cfg = pSize T p \<Longrightarrow> 1 \<le> Depth cfg \<Longrightarrow>
   table ai = (\<lambda>i. zeroEntry) \<Longrightarrow>
   (\<exists>ai'. Analyze T cfg ev gen newRand now clock ai p limit = Inr (ai', [], s, st ai')) \<and>
   GetMove T cfg ev gen newRand now clock ai p limit = Inl IndexOutOfRange"
proof -
  assume o: "fst (pGameOver T p)" and e: "ev p = Inr s" and sz: "Size cfg = pSize T p"
    and dp: "1 \<le> Depth cfg" and tb: "table ai = (\<lambda>i. zeroEntry)"
  let ?ai1 = "ai\<lparr>heatMap := map (\<lambda>x. x div 2) (heatMap ai),
              rand := newRand (if Seed cfg = 0 then now else Seed cfg)\<rparr>"
  have base: "(case ttGet cfg ?ai1 (pHash T p) of Some e \<Rightarrow> if te_bound e = exactBound then te_depth e else 0
                    | None \<Rightarrow> 0) = 0"
    using tb by (simp add: ttGet_def zeroEntry_def Let_def)
  have "\<exists>ai'. deepen T cfg ev gen clock limit p 0 1 ?ai1
     (case ttGet cfg ?ai1 (pHash T p) of Some e \<Rightarrow> if te_bound e = exactBound then [te_m e] else []
                  | None \<Rightarrow> []) 0 0 0 = Inr (ai', [], s)"
    by (rule deepen_terminal [where ev=ev and p=p and T=T, OF o e]) (use dp in simp)
  then obtain ai' where d: "deepen T cfg ev gen clock limit p 0 1 ?ai1
     (case ttGet cfg ?ai1 (pHash T p) of Some e \<Rightarrow> if te_bound e = exactBound then [te_m e] else []
                  | None \<Rightarrow> []) 0 0 0 = Inr (ai', [], s)" ..
  have a: "Analyze T cfg ev gen newRand now clock ai p limit = Inr (ai', [], s, st ai')"
    using sz d base unfolding Analyze_def Let_def by simp
  then show ?thesis by (auto simp: GetMove_def)
qed

theorem analyze_terminal_witness:
  "fst (pGameOver toyT 2) \<and> toyEval 2 = Inr (- 1073741831) \<and>
   (\<exists>ai'. Analyze toyT (toyCfg 1) toyEval (plainGen toyT) toyRand 0 toyClock
            (NewMinimax (toyCfg 1) ()) 2 0 = Inr (ai', [], - 1073741831, st ai')) \<and>
   GetMove toyT (toyCfg 1) toyEval (plainGen toyT) toyRand 0 toyClock
            (NewMinimax (toyCfg 1) ()) 2 0 = Inl IndexOutOfRange"
  using analyze_terminal [where T = toyT and p = 2 and ev = toyEval and s = "- 1073741831"
      and cfg = "toyCfg 1" and ai = "NewMinimax (toyCfg 1) ()" and gen = "plainGen toyT"
      and newRand = toyRand and now = 0 and clock = toyClock and limit = 0]
  by (simp add: toy_defs)

text \<open>
  With \<open>cfg.Depth = 0\<close> the loop does not run and \<open>Analyze\<close> returns the value 0 on the
  finished game 2, whose score is \<open>minEval + 9 - 16\<close>.
\<close>

theorem analyze_terminal_counterexample:
  "fst (pGameOver toyT 2) \<and> toyEval 2 = Inr (- 1073741831) \<and>
   Analyze toyT (toyCfg 0) toyEval (plainGen toyT) toyRand 0 toyClock (NewMinimax (toyCfg 0) ()) 2 0 =
     Inr ((NewMinimax (toyCfg 0) ())\<lparr>heatMap := replicate 25 0\<rparr>, [], 0, zeroStats)"
  by (simp add: Analyze_def deepen.simps toy_defs)

section \<open>Move reordering in the older variant\<close>

lemma Equal_eq: "Equal a b \<longleftrightarrow> a = b"
  by (cases a, cases b) (auto simp: Equal_def)

text \<open>
  The scan after the move of the line has been met (or when it does not occur from \<open>i\<close>
  on): the moves that equal the entry's first move or stand on the square of \<open>pv0\<close>
  (predicate \<open>M\<close>) are gathered in the slots from 1 on, slot 0 is left alone.
\<close>

lemma reorderFrom_scan:
  assumes M: "M = (\<lambda>m. (te \<noteq> None \<and> hd (te0_ms (the te)) = m) \<or> (X m = X pv0 \<and> Y m = Y pv0))"
    and te: "te = None \<or> te0_ms (the te) \<noteq> []"
  shows "1 \<le> j \<Longrightarrow> j \<le> i \<Longrightarrow>
    \<forall>n. i \<le> n \<and> n < length ms \<longrightarrow> ms ! n \<noteq> pv0 \<Longrightarrow>
    \<forall>n. 1 \<le> n \<and> n < j \<and> n < length ms \<longrightarrow> M (ms ! n) \<Longrightarrow>
    \<forall>n. j \<le> n \<and> n < i \<and> n < length ms \<longrightarrow> \<not> M (ms ! n) \<Longrightarrow>
    \<exists>res j'. reorderFrom pv0 te i j ms = Inr res \<and> mset res = mset ms \<and> length res = length ms \<and>
       res ! 0 = ms ! 0 \<and> 
       (\<forall>n. 1 \<le> n \<and> n < length res \<longrightarrow> (n < j' \<longleftrightarrow> M (res ! n)))"
proof (induction "length ms - i" arbitrary: i j ms)
  case 0
  then have "reorderFrom pv0 te i j ms = Inr ms"
    by (subst reorderFrom.simps) simp
  moreover have "\<forall>n. 1 \<le> n \<and> n < length ms \<longrightarrow> (n < j \<longleftrightarrow> M (ms ! n))"
  proof (intro allI impI)
    fix n assume n: "1 \<le> n \<and> n < length ms"
    from 0(1) have "length ms \<le> i" by simp
    with n have ni: "n < i" by simp
    show "n < j \<longleftrightarrow> M (ms ! n)"
      using 0(5)[rule_format, of n] 0(6)[rule_format, of n] n ni by (cases "n < j") auto
  qed
  ultimately show ?case by blast
next
  case (Suc k)
  then have il: "i < length ms" and jl: "j < length ms" by auto
  have ne: "ms ! i \<noteq> pv0" using Suc.prems(3) il by auto
  have tne: "\<not> (te \<noteq> None \<and> j < length ms \<and> te0_ms (the te) = [])" using te by auto
  show ?case
  proof (cases "M (ms ! i)")
    case True
    let ?ms = "ms[j := ms ! i, i := ms ! j]"
    have step: "reorderFrom pv0 te i j ms = reorderFrom pv0 te (i + 1) (j + 1) ?ms"
      using il jl ne tne True
      by (subst reorderFrom.simps) (auto simp: Let_def Equal_eq M)
    have len: "length ?ms = length ms" by simp
    have k: "k = length ?ms - (i + 1)" using Suc.hyps(2) by simp
    have a3: "\<forall>n. i + 1 \<le> n \<and> n < length ?ms \<longrightarrow> ?ms ! n \<noteq> pv0"
      using Suc.prems(1,2,3) il jl by (auto simp: nth_list_update)
    have a4: "\<forall>n. 1 \<le> n \<and> n < j + 1 \<and> n < length ?ms \<longrightarrow> M (?ms ! n)"
      using Suc.prems(1,2,4) il jl True by (auto simp: nth_list_update)
    have a5: "\<forall>n. j + 1 \<le> n \<and> n < i + 1 \<and> n < length ?ms \<longrightarrow> \<not> M (?ms ! n)"
      using Suc.prems(1,2,5) il jl by (auto simp: nth_list_update)
    from Suc.hyps(1) [OF k _ _ a3 a4 a5] Suc.prems(1,2)
    obtain res j' where r: "reorderFrom pv0 te (i + 1) (j + 1) ?ms = Inr res" "mset res = mset ?ms"
      "length res = length ?ms" "res ! 0 = ?ms ! 0"
      "\<forall>n. 1 \<le> n \<and> n < length res \<longrightarrow> (n < j' \<longleftrightarrow> M (res ! n))"
      by auto
    have "mset ?ms = mset ms" using il jl by (simp add: mset_swap)
    moreover have "?ms ! 0 = ms ! 0" using Suc.prems(1,2) il jl by (auto simp: nth_list_update)
    ultimately show ?thesis using r step by auto
  next
    case False
    have step: "reorderFrom pv0 te i j ms = reorderFrom pv0 te (i + 1) j ms"
      using il jl ne tne False
      by (subst reorderFrom.simps) (auto simp: Let_def Equal_eq M)
    have k: "k = length ms - (i + 1)" using Suc.hyps(2) by simp
    have a3: "\<forall>n. i + 1 \<le> n \<and> n < length ms \<longrightarrow> ms ! n \<noteq> pv0"
      using Suc.prems(3) by auto
    have a5: "\<forall>n. j \<le> n \<and> n < i + 1 \<and> n < length ms \<longrightarrow> \<not> M (ms ! n)"
      using Suc.prems(5) False by (auto simp: less_Suc_eq)
    from Suc.hyps(1) [OF k Suc.prems(1) _ a3 Suc.prems(4) a5] Suc.prems(2)
    show ?thesis using step by auto
  qed
qed

text \<open>The scan up to the index \<open>k\<close> of the move of the line, and what follows it.\<close>

lemma reorderFrom_to_pv:
  assumes M: "M = (\<lambda>m. (te \<noteq> None \<and> hd (te0_ms (the te)) = m) \<or> (X m = X pv0 \<and> Y m = Y pv0))"
    and te: "te = None \<or> te0_ms (the te) \<noteq> []"
  shows "1 \<le> j \<Longrightarrow> j \<le> i \<Longrightarrow> i \<le> k \<Longrightarrow> k < length ms \<Longrightarrow> ms ! k = pv0 \<Longrightarrow>
    \<forall>n < length ms. ms ! n = pv0 \<longrightarrow> n = k \<Longrightarrow> \<not> M (ms ! 0) \<Longrightarrow>
    \<forall>n. 1 \<le> n \<and> n < j \<and> n < length ms \<longrightarrow> M (ms ! n) \<Longrightarrow>
    \<forall>n. j \<le> n \<and> n < i \<and> n < length ms \<longrightarrow> \<not> M (ms ! n) \<Longrightarrow>
    \<exists>res. reorderFrom pv0 te i j ms = Inr res \<and> mset res = mset ms \<and> res ! 0 = pv0 \<and>
      (if typeOrd (Type pv0) < typeOrd SlideLeft
       then drop (Suc k) res = drop (Suc k) ms \<and>
            (\<exists>j'. \<forall>n. 1 \<le> n \<and> n \<le> k \<longrightarrow> (n < j' \<longleftrightarrow> M (res ! n)))
       else (\<exists>j'. \<forall>n. 1 \<le> n \<and> n < length res \<longrightarrow> (n < j' \<longleftrightarrow> M (res ! n))))"
proof (induction "k - i" arbitrary: i j ms)
  case 0
  from 0(1,4) have ik: "i = k" by simp
  let ?ms = "ms[0 := ms ! k, k := ms ! 0]"
  have k1: "1 \<le> k" using 0(2,3,4) by simp
  have mset: "mset ?ms = mset ms" by (rule mset_swap) (use 0(5) in auto)
  have l0: "0 < length ms" using 0(5) by (cases ms) auto
  have z: "?ms ! 0 = pv0" using 0(5,6) k1 l0 by (simp add: nth_list_update)
  show ?case
  proof (cases "typeOrd (Type pv0) < typeOrd SlideLeft")
    case True
    have r: "reorderFrom pv0 te i j ms = Inr ?ms"
      using 0(5,6) ik True by (subst reorderFrom.simps) (simp add: Let_def Equal_eq)
    have d: "drop (Suc k) ?ms = drop (Suc k) ms" by simp
    have "\<forall>n. 1 \<le> n \<and> n \<le> k \<longrightarrow> (n < j \<longleftrightarrow> M (?ms ! n))"
    proof (intro allI impI)
      fix n assume n: "1 \<le> n \<and> n \<le> k"
      show "n < j \<longleftrightarrow> M (?ms ! n)"
      proof (cases "n = k")
        case True
        then show ?thesis using 0(3,5,8) ik k1 by (simp add: nth_list_update)
      next
        case False
        with n have nk: "n < k" by simp
        then have "?ms ! n = ms ! n" using n 0(5) by (simp add: nth_list_update)
        then show ?thesis
          using 0(9)[rule_format, of n] 0(10)[rule_format, of n] n nk ik 0(5) by (cases "n < j") auto
      qed
    qed
    then show ?thesis using r mset z True d by auto
  next
    case False
    have r: "reorderFrom pv0 te i j ms = reorderFrom pv0 te (k + 1) j ?ms"
      using 0(5,6) ik False by (subst reorderFrom.simps) (simp add: Let_def Equal_eq)
    have a3: "\<forall>n. k + 1 \<le> n \<and> n < length ?ms \<longrightarrow> ?ms ! n \<noteq> pv0"
      using 0(7) by (auto simp: nth_list_update)
    have a4: "\<forall>n. 1 \<le> n \<and> n < j \<and> n < length ?ms \<longrightarrow> M (?ms ! n)"
      using 0(3,9) ik by (auto simp: nth_list_update)
    have a5: "\<forall>n. j \<le> n \<and> n < k + 1 \<and> n < length ?ms \<longrightarrow> \<not> M (?ms ! n)"
      using 0(2,3,8,10) ik k1 by (auto simp: nth_list_update less_Suc_eq)
    from reorderFrom_scan [OF M te 0(2) _ a3 a4 a5] 0(3) ik
    obtain res j' where s: "reorderFrom pv0 te (k + 1) j ?ms = Inr res" "mset res = mset ?ms"
      "res ! 0 = ?ms ! 0" "\<forall>n. 1 \<le> n \<and> n < length res \<longrightarrow> (n < j' \<longleftrightarrow> M (res ! n))"
      by auto
    then show ?thesis using r mset z False by auto
  qed
next
  case (Suc d)
  from Suc.hyps(2) Suc.prems(2,4) have ik: "i < k" and il: "i < length ms" and jl: "j < length ms"
    by auto
  have ne: "ms ! i \<noteq> pv0" using Suc.prems(6) ik il by auto
  have tne: "\<not> (te \<noteq> None \<and> j < length ms \<and> te0_ms (the te) = [])" using te by auto
  show ?case
  proof (cases "M (ms ! i)")
    case True
    let ?ms = "ms[j := ms ! i, i := ms ! j]"
    have step: "reorderFrom pv0 te i j ms = reorderFrom pv0 te (i + 1) (j + 1) ?ms"
      using il jl ne tne True
      by (subst reorderFrom.simps) (auto simp: Let_def Equal_eq M)
    have d: "d = k - (i + 1)" using Suc.hyps(2) by simp
    have b4: "k < length ?ms" using Suc.prems(4) by simp
    have b5: "?ms ! k = pv0" using Suc.prems(2,5) ik il by (simp add: nth_list_update)
    have nej: "ms ! j \<noteq> pv0" using Suc.prems(6)[rule_format, of j] Suc.prems(2) ik jl by auto
    have b6: "\<forall>n < length ?ms. ?ms ! n = pv0 \<longrightarrow> n = k"
    proof (intro allI impI)
      fix n assume n: "n < length ?ms" and e: "?ms ! n = pv0"
      have "n \<noteq> i" using e ne nej il jl by (auto simp: nth_list_update split: if_splits)
      moreover have "n \<noteq> j" using e ne nej il jl by (auto simp: nth_list_update split: if_splits)
      ultimately have "?ms ! n = ms ! n" by simp
      with e n show "n = k" using Suc.prems(6)[rule_format, of n] by simp
    qed
    have b7: "\<not> M (?ms ! 0)" using Suc.prems(1,2,7) by (simp add: nth_list_update)
    have a4: "\<forall>n. 1 \<le> n \<and> n < j + 1 \<and> n < length ?ms \<longrightarrow> M (?ms ! n)"
      using Suc.prems(1,2,8) il jl True by (auto simp: nth_list_update)
    have a5: "\<forall>n. j + 1 \<le> n \<and> n < i + 1 \<and> n < length ?ms \<longrightarrow> \<not> M (?ms ! n)"
      using Suc.prems(1,2,9) il jl by (auto simp: nth_list_update)
    have dr: "drop (Suc k) ?ms = drop (Suc k) ms" using ik Suc.prems(2) by simp
    have ms: "mset ?ms = mset ms" using il jl by (simp add: mset_swap)
    from Suc.hyps(1) [OF d _ _ _ b4 b5 b6 b7 a4 a5] Suc.prems(1,2) ik
    show ?thesis unfolding step dr ms by auto
  next
    case False
    have step: "reorderFrom pv0 te i j ms = reorderFrom pv0 te (i + 1) j ms"
      using il jl ne tne False
      by (subst reorderFrom.simps) (auto simp: Let_def Equal_eq M)
    have d: "d = k - (i + 1)" using Suc.hyps(2) by simp
    have a5: "\<forall>n. j \<le> n \<and> n < i + 1 \<and> n < length ms \<longrightarrow> \<not> M (ms ! n)"
      using Suc.prems(9) False by (auto simp: less_Suc_eq)
    from Suc.hyps(1) [OF d Suc.prems(1) _ _ Suc.prems(4,5,6,7,8) a5] Suc.prems(2) ik
    show ?thesis unfolding step by auto
  qed
qed

text \<open>
  C4, as the code has it. Let the first move \<open>pv0\<close> of the incoming line occur in the move
  list exactly once, at index \<open>k\<close>, and let the list not begin with another move that
  equals the entry's first move or stands on the square of \<open>pv0\<close>. Then the reordered list
  is a permutation with \<open>pv0\<close> at index 0. If \<open>pv0\<close> is a placement (kind below
  \<open>SlideLeft\<close>) the loop stops there: the moves after index \<open>k\<close> keep their places, and
  only among the moves before \<open>k\<close> those equal to the entry's first move or on the square
  of \<open>pv0\<close> have been gathered in the slots from 1 on. If \<open>pv0\<close> is a slide the loop runs to
  the end, and all such moves of the list stand in the slots from 1 on, before every
  other move.
\<close>

theorem reorder_pv_first:
  assumes pv: "pv = pv0 # rest" and k: "k < length moves" and mk: "moves ! k = pv0"
    and uniq: "\<forall>n < length moves. moves ! n = pv0 \<longrightarrow> n = k"
    and te: "te = None \<or> te0_ms (the te) \<noteq> []"
    and first: "k = 0 \<or> \<not> ((te \<noteq> None \<and> hd (te0_ms (the te)) = moves ! 0) \<or>
                           (X (moves ! 0) = X pv0 \<and> Y (moves ! 0) = Y pv0))"
  shows "\<exists>res. reorder pv te moves = Inr res \<and> mset res = mset moves \<and> res ! 0 = pv0 \<and>
      (if typeOrd (Type pv0) < typeOrd SlideLeft
       then drop (Suc k) res = drop (Suc k) moves \<and>
            (\<exists>j. \<forall>n. 1 \<le> n \<and> n \<le> k \<longrightarrow>
               (n < j \<longleftrightarrow> (te \<noteq> None \<and> hd (te0_ms (the te)) = res ! n) \<or>
                            (X (res ! n) = X pv0 \<and> Y (res ! n) = Y pv0)))
       else (\<exists>j. \<forall>n. 1 \<le> n \<and> n < length res \<longrightarrow>
               (n < j \<longleftrightarrow> (te \<noteq> None \<and> hd (te0_ms (the te)) = res ! n) \<or>
                            (X (res ! n) = X pv0 \<and> Y (res ! n) = Y pv0))))"
proof -
  define M where "M = (\<lambda>m. (te \<noteq> None \<and> hd (te0_ms (the te)) = m) \<or> (X m = X pv0 \<and> Y m = Y pv0))"
  have r0: "reorder pv te moves = reorderFrom pv0 te 0 1 moves"
    by (simp add: reorder_def pv)
  have l0: "0 < length moves" using k by (cases moves) auto
  show ?thesis
  proof (cases "k = 0")
    case True
    have id: "moves[0 := pv0] = moves" using mk True list_update_id [of moves 0] by simp
    show ?thesis
    proof (cases "typeOrd (Type pv0) < typeOrd SlideLeft")
      case pl: True
      have "reorderFrom pv0 te 0 1 moves = Inr moves"
        using l0 mk True pl by (subst reorderFrom.simps) (simp add: Let_def Equal_eq id)
      then show ?thesis using r0 mk True pl by auto
    next
      case sl: False
      have st: "reorderFrom pv0 te 0 1 moves = reorderFrom pv0 te 1 1 moves"
        using l0 mk True sl by (subst reorderFrom.simps) (simp add: Let_def Equal_eq id)
      have a3: "\<forall>n. 1 \<le> n \<and> n < length moves \<longrightarrow> moves ! n \<noteq> pv0"
        using uniq True by auto
      from reorderFrom_scan [OF M_def te, of 1 1 moves] a3
      obtain res j' where s: "reorderFrom pv0 te 1 1 moves = Inr res" "mset res = mset moves"
        "res ! 0 = moves ! 0" "\<forall>n. 1 \<le> n \<and> n < length res \<longrightarrow> (n < j' \<longleftrightarrow> M (res ! n))"
        by auto
      show ?thesis
        using s r0 st mk True sl unfolding M_def by auto
    qed
  next
    case False
    then have nM: "\<not> M (moves ! 0)" using first by (simp add: M_def)
    have ne: "moves ! 0 \<noteq> pv0" using uniq[rule_format, of 0] l0 False by auto
    have tne: "\<not> (te \<noteq> None \<and> 1 < length moves \<and> te0_ms (the te) = [])" using te by auto
    have st: "reorderFrom pv0 te 0 1 moves = reorderFrom pv0 te 1 1 moves"
      using l0 ne tne nM by (subst reorderFrom.simps) (auto simp: Let_def Equal_eq M_def)
    have k1: "1 \<le> k" using False by simp
    from reorderFrom_to_pv [OF M_def te, of 1 1 k moves, OF _ _ k1 k mk uniq nM]
    obtain res where s: "reorderFrom pv0 te 1 1 moves = Inr res" "mset res = mset moves" "res ! 0 = pv0"
      "if typeOrd (Type pv0) < typeOrd SlideLeft
       then drop (Suc k) res = drop (Suc k) moves \<and>
            (\<exists>j'. \<forall>n. 1 \<le> n \<and> n \<le> k \<longrightarrow> (n < j' \<longleftrightarrow> M (res ! n)))
       else (\<exists>j'. \<forall>n. 1 \<le> n \<and> n < length res \<longrightarrow> (n < j' \<longleftrightarrow> M (res ! n)))"
      by auto
    show ?thesis
      using s r0 st unfolding M_def by auto
  qed
qed

theorem reorder_pv_first_witness:
  "reorder [mvS] (Some teHit0) [mvA, mvC, mvS, mvB, mvS2] = Inr [mvS, mvC, mvS2, mvB, mvA] \<and>
   reorder [mvP] (Some teHit0) [mvA, mvC, mvP, mvB, mvP2] = Inr [mvP, mvC, mvA, mvB, mvP2]"
  using reorder_pv_first [where pv = "[mvS]" and ?pv0.0 = mvS and rest = "[]" and k = 2
      and moves = "[mvA, mvC, mvS, mvB, mvS2]" and te = "Some teHit0"]
    reorder_pv_first [where pv = "[mvP]" and ?pv0.0 = mvP and rest = "[]" and k = 2
      and moves = "[mvA, mvC, mvP, mvB, mvP2]" and te = "Some teHit0"]
  by (simp add: reorder_def reorderFrom.simps Equal_def mvS_def mvS2_def mvP_def mvP2_def mvA_def
        mvB_def mvC_def teHit0_def)

text \<open>
  C4 as stated fails both ways: after the slide \<open>mvS\<close> of the line the loop goes on and
  swaps the slide \<open>mvS2\<close> of the same square forward; after the placement \<open>mvP\<close> of the line
  it stops, and the placement \<open>mvP2\<close> on the same square stays behind \<open>mvA\<close>.
\<close>

theorem reorder_counterexample:
  "reorder [mvS] None [mvA, mvS, mvS2] = Inr [mvS, mvS2, mvA] \<and>
   typeOrd SlideLeft \<le> typeOrd (Type mvS) \<and>
   reorder [mvP] None [mvA, mvP, mvP2] = Inr [mvP, mvA, mvP2] \<and>
   typeOrd (Type mvP) < typeOrd SlideLeft \<and> X mvP2 = X mvP \<and> Y mvP2 = Y mvP"
  by (simp add: reorder_def reorderFrom.simps Equal_def mvS_def mvS2_def mvP_def mvP2_def mvA_def)

section \<open>Determinism of Analyze\<close>

text \<open>With the time limit disabled (\<open>limit = 0\<close>) the deepening loop never reads the clock.\<close>

lemma deepen_clock:
  "deepen T cfg ev gen clock 0 p base i ai ms v prevEval branchSum =
   deepen T cfg ev gen clock' 0 p base i ai ms v prevEval branchSum"
proof (induction "nat (Depth cfg - int (i + base) + 1)" arbitrary: i ai ms v prevEval branchSum)
  case 0
  then have "\<not> int (i + base) \<le> Depth cfg" by simp
  then show ?case
    by (subst deepen.simps, subst (2) deepen.simps) simp
next
  case (Suc n)
  have IH: "deepen T cfg ev gen clock 0 p base (Suc i) a m w pe bs =
            deepen T cfg ev gen clock' 0 p base (Suc i) a m w pe bs"
    if "int i + int base \<le> Depth cfg" for a m w pe bs
    by (rule Suc.hyps(1)) (use Suc.hyps(2) that in simp)
  show ?case
    by (subst deepen.simps, subst (2) deepen.simps)
       (simp add: Let_def IH split: sum.splits prod.splits)
qed

text \<open>
  C3, as the code has it. With a nonzero \<open>Seed\<close> and the time limit disabled, what
  \<open>Analyze\<close> returns (and the searcher it leaves) depends neither on the wall clock nor
  on the state in which earlier calls left the random generator: it is a function of the
  position, the configuration, the rule engine, and the table, heat map and statistics
  of the searcher at call entry. So the first calls on two fresh searchers agree.
\<close>

theorem analyze_deterministic:
  "Seed cfg \<noteq> 0 \<Longrightarrow>
   Analyze T cfg ev gen newRand now clock (ai\<lparr>rand := r\<rparr>) p 0 =
   Analyze T cfg ev gen newRand now' clock' (ai\<lparr>rand := r'\<rparr>) p 0"
  by (simp add: Analyze_def Let_def deepen_clock [of T cfg ev gen clock _ _ _ _ _ _ _ _ clock'])

theorem analyze_deterministic_witness:
  "Seed (toyCfg 1) \<noteq> 0 \<and>
   Analyze toyT (toyCfg 1) toyEval (plainGen toyT) toyRand 0 toyClock (NewMinimax (toyCfg 1) ()) 1 0 =
   Analyze toyT (toyCfg 1) toyEval (plainGen toyT) toyRand 7 (\<lambda>i. (1000, 1000)) (NewMinimax (toyCfg 1) ()) 1 0"
  using analyze_deterministic [where cfg = "toyCfg 1" and T = toyT and ev = toyEval
      and gen = "plainGen toyT" and newRand = toyRand and now = 0 and clock = toyClock
      and ai = "NewMinimax (toyCfg 1) ()" and r = "()" and p = 1 and now' = 7
      and clock' = "\<lambda>i. (1000, 1000)" and r' = "()"]
  by (simp add: toyCfg_def NewMinimax_def)

text \<open>
  Two successive calls on one fresh searcher do not agree: the first \<open>Analyze\<close> of position
  1 returns the value -250 and leaves an exact entry for the root; the second call finds
  it, does not search, and returns the value 0.
\<close>

theorem analyze_twice_counterexample:
  "Seed (toyCfg 1) \<noteq> 0 \<and>
   Analyze toyT (toyCfg 1) toyEval (plainGen toyT) toyRand 0 toyClock (NewMinimax (toyCfg 1) ()) 1 0 =
     Inr (aiWarm, [mvC], - 250, warmStats) \<and>
   Analyze toyT (toyCfg 1) toyEval (plainGen toyT) toyRand 0 toyClock aiWarm 1 0 =
     Inr (aiWarm, [mvC], 0, warmStats)"
  by (simp add: Analyze_def deepen.simps minimax.simps toy_defs)

section \<open>Analyze returns a legal move\<close>

text \<open>
  The search returns, and leaves the length of the heat map alone, when the evaluation
  function does not fail and the move generator keeps its contract; the line a searched
  node returns is not empty and begins with a legal move, provided the incoming line is
  empty or begins with one.
\<close>

lemma recordCut_Inr:
  "0 \<le> X mv + Y mv * Size cfg \<Longrightarrow> X mv + Y mv * Size cfg < int (length (heatMap ai)) \<Longrightarrow>
   \<exists>ai'. recordCut cfg d i mv ai = Inr ai' \<and> length (heatMap ai') = length (heatMap ai) \<and>
         table ai' = table ai"
  by (simp add: recordCut_def Let_def)

lemma searchChild_total:
  assumes S: "\<forall>a c pv lo hi. length (heatMap a) = n \<longrightarrow>
               (\<exists>a' ms v. search a c pv lo hi = Inr (a', ms, v) \<and> length (heatMap a') = n)"
    and H: "length (heatMap ai) = n"
  shows "\<exists>a' ms v. searchChild search i ai child newpv \<alpha> \<beta> = Inr (a', ms, v) \<and> length (heatMap a') = n"
proof (cases "i > 1")
  case False
  then show ?thesis using S H by (simp add: searchChild_def)
next
  case True
  from S H obtain a1 ms1 v1 where
    s1: "search ai child newpv (- \<alpha> - 1) (- \<alpha>) = Inr (a1, ms1, v1)" and h1: "length (heatMap a1) = n"
    by blast
  from S h1 obtain a2 ms2 v2 where
    s2: "search a1 child newpv (- \<beta>) (- \<alpha>) = Inr (a2, ms2, v2)" and h2: "length (heatMap a2) = n"
    by blast
  show ?thesis using True s1 h1 s2 h2 by (simp add: searchChild_def)
qed

lemma searchMoves_total:
  assumes S: "\<forall>a c pv lo hi. length (heatMap a) = n \<longrightarrow>
               (\<exists>a' ms v. search a c pv lo hi = Inr (a', ms, v) \<and> length (heatMap a') = n)"
  shows "length (heatMap ai) = n \<Longrightarrow>
    \<forall>mc \<in> set moves. 0 \<le> X (fst mc) + Y (fst mc) * Size cfg \<and> X (fst mc) + Y (fst mc) * Size cfg < int n \<Longrightarrow>
    \<exists>ai' best' \<alpha>' imp'. searchMoves search cfg d \<beta> moves i0 ai best \<alpha> imp = Inr (ai', best', \<alpha>', imp') \<and>
       length (heatMap ai') = n \<and>
       (best' = best \<or> (best' \<noteq> [] \<and> hd best' \<in> fst ` set moves)) \<and>
       (moves \<noteq> [] \<longrightarrow> best' \<noteq> [])"
proof (induction moves arbitrary: i0 ai best \<alpha> imp)
  case Nil
  then show ?case by simp
next
  case (Cons a moves)
  obtain mv child where a: "a = (mv, child)" by (cases a)
  let ?newpv = "if best \<noteq> [] then tl best else []"
  from searchChild_total [OF S Cons.prems(1)] obtain a1 ms v0 where
    sc: "searchChild search (i0 + 1) ai child ?newpv \<alpha> \<beta> = Inr (a1, ms, v0)"
    and h1: "length (heatMap a1) = n" by blast
  have ob: "\<forall>mc \<in> set moves. 0 \<le> X (fst mc) + Y (fst mc) * Size cfg \<and> X (fst mc) + Y (fst mc) * Size cfg < int n"
    using Cons.prems(2) by simp
  have obm: "0 \<le> X mv + Y mv * Size cfg" "X mv + Y mv * Size cfg < int (length (heatMap a1))"
    using Cons.prems(2) a h1 by auto
  show ?case
  proof (cases "- v0 > \<alpha>")
    case True
    show ?thesis
    proof (cases "- v0 \<ge> \<beta>")
      case cut: True
      from recordCut_Inr [OF obm, of d "i0 + 1"] obtain a2 where
        rc: "recordCut cfg d (i0 + 1) mv a1 = Inr a2" and h2: "length (heatMap a2) = length (heatMap a1)"
        by blast
      show ?thesis using sc True cut rc h2 h1 by (auto simp: a Let_def)
    next
      case False
      from Cons.IH [OF h1 ob, of "i0 + 1" "mv # ms" "- v0" True]
      obtain ai' best' \<alpha>' imp' where
        r: "searchMoves search cfg d \<beta> moves (i0 + 1) a1 (mv # ms) (- v0) True = Inr (ai', best', \<alpha>', imp')"
        "length (heatMap ai') = n" "best' = mv # ms \<or> (best' \<noteq> [] \<and> hd best' \<in> fst ` set moves)"
        by blast
      show ?thesis using sc True False r by (auto simp: a Let_def)
    qed
  next
    case False
    let ?best1 = "if best = [] then mv # ms else best"
    from Cons.IH [OF h1 ob, of "i0 + 1" ?best1 \<alpha> imp]
    obtain ai' best' \<alpha>' imp' where
      r: "searchMoves search cfg d \<beta> moves (i0 + 1) a1 ?best1 \<alpha> imp = Inr (ai', best', \<alpha>', imp')"
      "length (heatMap ai') = n" "best' = ?best1 \<or> (best' \<noteq> [] \<and> hd best' \<in> fst ` set moves)"
      by blast
    show ?thesis using sc False r by (auto simp: a Let_def split: if_splits)
  qed
qed

lemma ttProbe_Some:
  "ttProbe T cfg ai p d \<alpha> \<beta> = Some (a', ms, v) \<Longrightarrow>
   ttGet cfg ai (pHash T p) \<noteq> None \<and>
   teSuffices (the (ttGet cfg ai (pHash T p))) d \<alpha> \<beta> \<and>
   ms = [te_m (the (ttGet cfg ai (pHash T p)))] \<and>
   v = te_value (the (ttGet cfg ai (pHash T p))) \<and>
   pMove T p (hd ms) \<noteq> None \<and> heatMap a' = heatMap ai \<and> table a' = table ai"
  by (auto simp: ttProbe_def split: option.splits if_splits)

lemma storeResult_Inr:
  "best \<noteq> [] \<Longrightarrow>
   \<exists>ai4. storeResult ai h d best \<alpha> \<beta> imp = Inr ai4 \<and> heatMap ai4 = heatMap ai"
  by (cases best) (auto simp: storeResult_def ttPut_def Let_def)

lemma minimax_total:
  assumes G: "legalGen T cfg gen" and E: "\<forall>q. \<exists>v. ev q = Inr v"
  shows "length (heatMap ai) = nat (Size cfg * Size cfg) \<Longrightarrow>
    \<exists>ai' pv' v. minimax T cfg ev gen ai p ply d pv \<alpha> \<beta> = Inr (ai', pv', v) \<and>
       length (heatMap ai') = nat (Size cfg * Size cfg) \<and>
       (d \<noteq> 0 \<and> \<not> fst (pGameOver T p) \<longrightarrow>
          pv' \<noteq> [] \<and> ((pv = [] \<or> pMove T p (hd pv) \<noteq> None) \<longrightarrow> pMove T p (hd pv') \<noteq> None))"
proof (induction d arbitrary: ai p ply pv \<alpha> \<beta>)
  case 0
  from E obtain v where "ev p = Inr v" by blast
  then show ?case using 0 by (subst minimax.simps) (simp add: Let_def)
next
  case (Suc d)
  let ?n = "nat (Size cfg * Size cfg)"
  show ?case
  proof (cases "fst (pGameOver T p)")
    case True
    from E obtain v where "ev p = Inr v" by blast
    then show ?thesis using True Suc.prems by (subst minimax.simps) (simp add: Let_def)
  next
    case False
    let ?ai1 = "ai\<lparr>st := (st ai)\<lparr>Visited := Visited (st ai) + 1\<rparr>\<rparr>"
    show ?thesis
    proof (cases "ttProbe T cfg ?ai1 p (Suc d) \<alpha> \<beta>")
      case (Some r)
      obtain a' ms' v' where r: "r = (a', ms', v')" by (cases r)
      from ttProbe_Some [OF Some [unfolded r]]
      have ha: "heatMap a' = heatMap ai" and leg: "pMove T p (hd ms') \<noteq> None" and ne: "ms' \<noteq> []"
        by auto
      have "minimax T cfg ev gen ai p ply (Suc d) pv \<alpha> \<beta> = Inr r"
        using False Some by (subst minimax.simps) simp
      then show ?thesis using r ha leg ne Suc.prems by simp
    next
      case None
      let ?te = "teAfterProbe cfg ?ai1 (pHash T p) (Suc d) \<alpha> \<beta>"
      obtain moves ai2 where g: "gen ?ai1 ply (Suc d) p ?te pv = (moves, ai2)"
        by (cases "gen ?ai1 ply (Suc d) p ?te pv")
      from G [unfolded legalGen_def, rule_format, of p ?ai1 ply "Suc d" ?te pv] g False
      have mne: "moves \<noteq> []"
        and leg: "\<forall>mc \<in> set moves. pMove T p (fst mc) = Some (snd mc)"
        and ob: "\<forall>mc \<in> set moves. 0 \<le> X (fst mc) + Y (fst mc) * Size cfg \<and>
                   X (fst mc) + Y (fst mc) * Size cfg < int ?n"
        and h2: "length (heatMap ai2) = ?n"
        using Suc.prems by auto
      let ?search = "\<lambda>a child newpv lo hi. minimax T cfg ev gen a child (ply + 1) (Suc d - 1) newpv lo hi"
      have S: "\<forall>a c pv lo hi. length (heatMap a) = ?n \<longrightarrow>
               (\<exists>a' ms v. ?search a c pv lo hi = Inr (a', ms, v) \<and> length (heatMap a') = ?n)"
        using Suc.IH by (simp, blast)
      from searchMoves_total [OF S h2 ob, of "Suc d" \<beta> 0 pv \<alpha> False]
      obtain ai3 best \<alpha>' imp where
        l: "searchMoves ?search cfg (Suc d) \<beta> moves 0 ai2 pv \<alpha> False = Inr (ai3, best, \<alpha>', imp)"
        and h3: "length (heatMap ai3) = ?n"
        and bh: "best = pv \<or> (best \<noteq> [] \<and> hd best \<in> fst ` set moves)"
        and bne: "best \<noteq> []"
        using mne by blast
      obtain b0 bs where bb: "best = b0 # bs" using bne by (cases best) auto
      have m: "minimax T cfg ev gen ai p ply (Suc d) pv \<alpha> \<beta> =
          (case storeResult ai3 (pHash T p) (Suc d) best \<alpha>' \<beta> imp of
             Inl e \<Rightarrow> Inl e | Inr ai4 \<Rightarrow> Inr (ai4, best, \<alpha>'))"
        using False None g l by (subst minimax.simps) simp
      from storeResult_Inr [OF bne, of ai3 "pHash T p" "Suc d" \<alpha>' \<beta> imp]
      obtain ai4 where sr: "storeResult ai3 (pHash T p) (Suc d) best \<alpha>' \<beta> imp = Inr ai4"
        and h4': "heatMap ai4 = heatMap ai3"
        by blast
      have h4: "length (heatMap ai4) = ?n" using h3 h4' by simp
      have hl: "(pv = [] \<or> pMove T p (hd pv) \<noteq> None) \<longrightarrow> pMove T p (hd best) \<noteq> None"
        using bh bne leg by auto
      show ?thesis using m sr h4 bne hl by simp
    qed
  qed
qed

lemma legalGen_toy: "legalGen toyT (toyCfg n) (plainGen toyT)"
  unfolding legalGen_def
  by (auto simp: toyT_def toyCfg_def plainGen_def List.map_filter_def mvA_def mvB_def mvC_def)

lemma deepen_total:
  assumes G: "legalGen T cfg gen" and E: "\<forall>q. \<exists>v. ev q = Inr v"
    and o: "\<not> fst (pGameOver T p)"
  shows "length (heatMap ai) = nat (Size cfg * Size cfg) \<Longrightarrow> 1 \<le> i \<Longrightarrow>
    ms = [] \<or> pMove T p (hd ms) \<noteq> None \<Longrightarrow>
    int (i + base) \<le> Depth cfg \<or> ms \<noteq> [] \<Longrightarrow>
    \<exists>ai' pv v'. deepen T cfg ev gen clock limit p base i ai ms v prevEval branchSum = Inr (ai', pv, v') \<and>
       pv \<noteq> [] \<and> pMove T p (hd pv) \<noteq> None"
proof (induction "nat (Depth cfg - int (i + base) + 1)" arbitrary: i ai ms v prevEval branchSum)
  case 0
  then have "\<not> int (i + base) \<le> Depth cfg" by simp
  then show ?case using 0(4,5)
    by (subst deepen.simps) auto
next
  case (Suc n)
  show ?case
  proof (cases "int (i + base) \<le> Depth cfg")
    case False
    then show ?thesis using Suc.prems(3,4) by (subst deepen.simps) auto
  next
    case True
    let ?ai0 = "ai\<lparr>st := zeroStats\<lparr>stDepth := i + base\<rparr>\<rparr>"
    have h0: "length (heatMap ?ai0) = nat (Size cfg * Size cfg)" using Suc.prems(1) by simp
    from minimax_total [OF G E h0, of p 0 "i + base" ms "minEval - 1" "maxEval + 1"] o Suc.prems(2,3)
    obtain ai1 ms1 v1 where
      m: "minimax T cfg ev gen ?ai0 p 0 (i + base) ms (minEval - 1) (maxEval + 1) = Inr (ai1, ms1, v1)"
      and h1: "length (heatMap ai1) = nat (Size cfg * Size cfg)"
      and ne: "ms1 \<noteq> []" and leg: "pMove T p (hd ms1) \<noteq> None"
      by auto
    have IH: "\<exists>ai' pv v'. deepen T cfg ev gen clock limit p base (Suc i) ai1 ms1 v1 pe bs = Inr (ai', pv, v') \<and>
       pv \<noteq> [] \<and> pMove T p (hd pv) \<noteq> None" for pe bs
      by (rule Suc.hyps(1)) (use Suc.hyps(2) True h1 ne leg in auto)
    show ?thesis
      using True m ne leg IH
      by (subst deepen.simps) (simp add: Let_def)
  qed
qed

text \<open>
  C8, as the code has it. Let the position not be terminal, \<open>cfg.Size\<close> equal its size and
  \<open>cfg.Depth \<ge> 1\<close>; let the evaluation function not fail and the move generator keep its
  contract (at least one move at every non-terminal position, only legal moves, on the
  board); let an exact table entry for the root, if there is one, hold a move that is
  legal in the position (no hash collision). Then \<open>Analyze\<close> returns a non-empty line
  whose first move is legal in the position, and \<open>GetMove\<close> returns that first move.
\<close>

theorem analyze_returns_legal_move:
  assumes "legalGen T cfg gen" and "\<forall>q. \<exists>v. ev q = Inr v"
    and "\<not> fst (pGameOver T p)" and "Size cfg = pSize T p" and "1 \<le> Depth cfg"
    and "length (heatMap ai) = nat (Size cfg * Size cfg)"
    and "\<forall>te. ttGet cfg ai (pHash T p) = Some te \<and> te_bound te = exactBound \<longrightarrow>
           pMove T p (te_m te) \<noteq> None"
  shows "\<exists>ai' pv v s. Analyze T cfg ev gen newRand now clock ai p limit = Inr (ai', pv, v, s) \<and>
           pv \<noteq> [] \<and> pMove T p (hd pv) \<noteq> None \<and>
           GetMove T cfg ev gen newRand now clock ai p limit = Inr (ai', hd pv)"
proof -
  let ?ai1 = "ai\<lparr>heatMap := map (\<lambda>x. x div 2) (heatMap ai),
              rand := newRand (if Seed cfg = 0 then now else Seed cfg)\<rparr>"
  let ?te = "ttGet cfg ?ai1 (pHash T p)"
  let ?base = "case ?te of Some e \<Rightarrow> if te_bound e = exactBound then te_depth e else 0 | None \<Rightarrow> 0"
  let ?ms = "case ?te of Some e \<Rightarrow> if te_bound e = exactBound then [te_m e] else [] | None \<Rightarrow> []"
  have h: "length (heatMap ?ai1) = nat (Size cfg * Size cfg)" using assms(6) by simp
  have ms: "?ms = [] \<or> pMove T p (hd ?ms) \<noteq> None"
    using assms(7) by (auto split: option.splits)
  have b: "int (1 + ?base) \<le> Depth cfg \<or> ?ms \<noteq> []"
    using assms(5) by (auto split: option.splits)
  from deepen_total [OF assms(1,2,3) h _ ms b, of clock limit 0 0 0]
  obtain ai' pv v' where
    d: "deepen T cfg ev gen clock limit p ?base 1 ?ai1 ?ms 0 0 0 = Inr (ai', pv, v')"
    and ne: "pv \<noteq> []" and leg: "pMove T p (hd pv) \<noteq> None"
    by auto
  have a: "Analyze T cfg ev gen newRand now clock ai p limit = Inr (ai', pv, v', st ai')"
    using assms(4) d unfolding Analyze_def Let_def by simp
  obtain m0 rest where pv: "pv = m0 # rest" using ne by (cases pv) auto
  have "GetMove T cfg ev gen newRand now clock ai p limit = Inr (ai', hd pv)"
    using a by (simp add: GetMove_def pv)
  with a ne leg show ?thesis by blast
qed

theorem analyze_returns_legal_move_witness:
  "\<exists>ai' pv v s. Analyze toyT (toyCfg 1) toyEval (plainGen toyT) toyRand 0 toyClock
       (NewMinimax (toyCfg 1) ()) 0 0 = Inr (ai', pv, v, s) \<and>
     pv \<noteq> [] \<and> pMove toyT 0 (hd pv) \<noteq> None \<and>
     GetMove toyT (toyCfg 1) toyEval (plainGen toyT) toyRand 0 toyClock
       (NewMinimax (toyCfg 1) ()) 0 0 = Inr (ai', hd pv)"
proof (rule analyze_returns_legal_move)
  show "legalGen toyT (toyCfg 1) (plainGen toyT)"
    by (rule legalGen_toy)
  show "\<forall>q. \<exists>v. toyEval q = Inr v"
    by (simp add: toyEval_def ai_evaluate_def toyCfg_def evaluate_def toyT_def toyB_def Let_def)
  show "\<not> fst (pGameOver toyT 0)"
    by (simp add: toyT_def)
  show "Size (toyCfg 1) = pSize toyT 0"
    by (simp add: toyT_def toyCfg_def)
  show "1 \<le> Depth (toyCfg 1)"
    by (simp add: toyCfg_def)
  show "length (heatMap (NewMinimax (toyCfg 1) ())) = nat (Size (toyCfg 1) * Size (toyCfg 1))"
    by (simp add: NewMinimax_def)
  show "\<forall>te. ttGet (toyCfg 1) (NewMinimax (toyCfg 1) ()) (pHash toyT 0) = Some te \<and>
          te_bound te = exactBound \<longrightarrow> pMove toyT 0 (te_m te) \<noteq> None"
    by (simp add: ttGet_def NewMinimax_def zeroEntry_def toyCfg_def toyT_def Let_def)
qed

text \<open>
  With \<open>cfg.Depth = 0\<close>, the zero value of the configuration, \<open>Analyze\<close> returns the empty
  line for the non-terminal position 0, and \<open>GetMove\<close> fails on \<open>ms[0]\<close>.
\<close>

theorem analyze_empty_counterexample:
  "\<not> fst (pGameOver toyT 0) \<and>
   Analyze toyT (toyCfg 0) toyEval (plainGen toyT) toyRand 0 toyClock (NewMinimax (toyCfg 0) ()) 0 0 =
     Inr ((NewMinimax (toyCfg 0) ())\<lparr>heatMap := replicate 25 0\<rparr>, [], 0, zeroStats) \<and>
   GetMove toyT (toyCfg 0) toyEval (plainGen toyT) toyRand 0 toyClock (NewMinimax (toyCfg 0) ()) 0 0 =
     Inl IndexOutOfRange"
  by (simp add: GetMove_def Analyze_def deepen.simps toy_defs)

section \<open>The range of the values\<close>

text \<open>
  If every evaluation and every value stored in the table lies in \<open>[minEval, maxEval]\<close>
  and the window lies within \<open>(minEval - 1, maxEval + 1)\<close>, the same holds for what the
  search of a child returns, for the move loop and for \<open>minimax\<close>.
\<close>

lemma recordCut_table:
  "recordCut cfg d i mv ai = Inr ai' \<Longrightarrow> table ai' = table ai"
  by (auto simp: recordCut_def Let_def split: if_splits)

lemma searchChild_bounded:
  assumes S: "\<forall>a c pv lo hi a' ms v. tableInRange a \<longrightarrow>
                minEval - 1 \<le> lo \<longrightarrow> lo < hi \<longrightarrow> hi \<le> maxEval + 1 \<longrightarrow>
                search a c pv lo hi = Inr (a', ms, v) \<longrightarrow> inRange v \<and> tableInRange a'"
    and T: "tableInRange ai"
    and W: "minEval - 1 \<le> \<alpha>" "\<alpha> < \<beta>" "\<beta> \<le> maxEval + 1"
    and R: "searchChild search i ai child newpv \<alpha> \<beta> = Inr (a', ms, v)"
  shows "inRange v \<and> tableInRange a'"
proof (cases "i > 1")
  case False
  then have "search ai child newpv (- \<beta>) (- \<alpha>) = Inr (a', ms, v)"
    using R by (simp add: searchChild_def)
  from S [rule_format, OF T _ _ _ this] W show ?thesis by (simp add: minEval_def)
next
  case True
  then obtain a1 ms1 v1 where s1: "search ai child newpv (- \<alpha> - 1) (- \<alpha>) = Inr (a1, ms1, v1)"
    using R by (auto simp: searchChild_def split: sum.splits)
  from S [rule_format, OF T _ _ _ s1] W
  have b1: "inRange v1"
    and t1: "tableInRange a1"
    by (simp_all add: minEval_def)
  show ?thesis
  proof (cases "- v1 > \<alpha> \<and> - v1 < \<beta>")
    case False
    then have "(a', ms, v) = (a1, ms1, v1)" using R True s1 by (auto simp: searchChild_def)
    then show ?thesis using b1 t1 by simp
  next
    case re: True
    then have "search a1 child newpv (- \<beta>) (- \<alpha>) = Inr (a', ms, v)"
      using R True s1 by (simp add: searchChild_def)
    from S [rule_format, OF t1 _ _ _ this] W show ?thesis by (simp add: minEval_def)
  qed
qed

lemma searchMoves_bounded:
  assumes S: "\<forall>a c pv lo hi a' ms v. tableInRange a \<longrightarrow>
                minEval - 1 \<le> lo \<longrightarrow> lo < hi \<longrightarrow> hi \<le> maxEval + 1 \<longrightarrow>
                search a c pv lo hi = Inr (a', ms, v) \<longrightarrow> inRange v \<and> tableInRange a'"
    and B: "\<beta> \<le> maxEval + 1"
  shows "tableInRange ai \<Longrightarrow>
    minEval - 1 \<le> \<alpha> \<Longrightarrow> \<alpha> < \<beta> \<Longrightarrow>
    searchMoves search cfg d \<beta> moves i0 ai best \<alpha> imp = Inr (ai', best', \<alpha>', imp') \<Longrightarrow>
    tableInRange ai' \<and> (moves \<noteq> [] \<or> minEval \<le> \<alpha> \<longrightarrow> inRange \<alpha>')"
proof (induction moves arbitrary: i0 ai best \<alpha> imp)
  case Nil
  then show ?case using B by (auto simp: inRange_def)
next
  case (Cons a moves)
  obtain mv child where a: "a = (mv, child)" by (cases a)
  let ?newpv = "if best \<noteq> [] then tl best else []"
  from Cons.prems(4) obtain a1 ms v0 where
    sc: "searchChild search (i0 + 1) ai child ?newpv \<alpha> \<beta> = Inr (a1, ms, v0)"
    by (auto simp: a Let_def split: sum.splits)
  from searchChild_bounded [OF S Cons.prems(1,2,3) B sc]
  have b0: "inRange v0"
    and t1: "tableInRange a1"
    by simp_all
  have bv: "inRange (- v0)" "minEval \<le> - v0" using b0 by (simp_all add: inRange_def minEval_def)
  show ?case
  proof (cases "- v0 > \<alpha>")
    case True
    show ?thesis
    proof (cases "- v0 \<ge> \<beta>")
      case cut: True
      then obtain a2 where rc: "recordCut cfg d (i0 + 1) mv a1 = Inr a2"
        and res: "ai' = a2" "\<alpha>' = - v0"
        using Cons.prems(4) sc True by (auto simp: a Let_def split: sum.splits)
      show ?thesis using recordCut_table [OF rc] t1 res bv by (simp add: tableInRange_def)
    next
      case False
      then have r: "searchMoves search cfg d \<beta> moves (i0 + 1) a1 (mv # ms) (- v0) True = Inr (ai', best', \<alpha>', imp')"
        using Cons.prems(4) sc True by (simp add: a Let_def)
      from Cons.IH [OF t1 _ _ r] False bv show ?thesis by simp
    qed
  next
    case False
    then have r: "searchMoves search cfg d \<beta> moves (i0 + 1) a1 (if best = [] then mv # ms else best) \<alpha> imp
                  = Inr (ai', best', \<alpha>', imp')"
      using Cons.prems(4) sc by (simp add: a Let_def)
    have "minEval \<le> \<alpha>" using False bv by simp
    with Cons.IH [OF t1 Cons.prems(2,3) r] show ?thesis by simp
  qed
qed

lemma ttGet_inRange:
  "tableInRange ai \<Longrightarrow> ttGet cfg ai h \<noteq> None \<Longrightarrow> inRange (te_value (the (ttGet cfg ai h)))"
  by (auto simp: ttGet_def tableInRange_def Let_def split: if_splits)

lemma storeResult_inRange:
  "storeResult ai h d best \<alpha> \<beta> imp = Inr ai' \<Longrightarrow> tableInRange ai \<Longrightarrow> inRange \<alpha> \<Longrightarrow> tableInRange ai'"
  by (cases best) (auto simp: storeResult_def ttPut_def tableInRange_def Let_def split: if_splits)

lemma minimax_bounded:
  assumes G: "legalGen T cfg gen" and E: "\<forall>q v. ev q = Inr v \<longrightarrow> inRange v"
  shows "tableInRange ai \<Longrightarrow> minEval - 1 \<le> \<alpha> \<Longrightarrow> \<alpha> < \<beta> \<Longrightarrow> \<beta> \<le> maxEval + 1 \<Longrightarrow>
    minimax T cfg ev gen ai p ply d pv \<alpha> \<beta> = Inr (ai', pv', v) \<Longrightarrow> inRange v \<and> tableInRange ai'"
proof (induction d arbitrary: ai p ply pv \<alpha> \<beta> ai' pv' v)
  case 0
  then show ?case
    using E by (subst (asm) minimax.simps) (auto simp: Let_def tableInRange_def split: sum.splits)
next
  case (Suc d)
  show ?case
  proof (cases "fst (pGameOver T p)")
    case True
    with Suc.prems show ?thesis
      using E by (subst (asm) minimax.simps) (auto simp: Let_def tableInRange_def split: sum.splits)
  next
    case False
    let ?ai1 = "ai\<lparr>st := (st ai)\<lparr>Visited := Visited (st ai) + 1\<rparr>\<rparr>"
    have t1: "tableInRange ?ai1" using Suc.prems(1) by (simp add: tableInRange_def)
    show ?thesis
    proof (cases "ttProbe T cfg ?ai1 p (Suc d) \<alpha> \<beta>")
      case (Some r)
      have "minimax T cfg ev gen ai p ply (Suc d) pv \<alpha> \<beta> = Inr r"
        using False Some by (subst minimax.simps) simp
      with Suc.prems(5) have r: "r = (ai', pv', v)" by simp
      from ttProbe_Some [OF Some [unfolded r]] ttGet_inRange [OF t1, of cfg "pHash T p"] t1
      show ?thesis by (simp add: tableInRange_def)
    next
      case None
      let ?te = "teAfterProbe cfg ?ai1 (pHash T p) (Suc d) \<alpha> \<beta>"
      obtain moves ai2 where g: "gen ?ai1 ply (Suc d) p ?te pv = (moves, ai2)"
        by (cases "gen ?ai1 ply (Suc d) p ?te pv")
      from G [unfolded legalGen_def, rule_format, of p ?ai1 ply "Suc d" ?te pv] g False
      have mne: "moves \<noteq> []" and tb: "table ai2 = table ?ai1"
        by auto
      have t2: "tableInRange ai2" using t1 tb by (simp add: tableInRange_def)
      let ?search = "\<lambda>a child newpv lo hi. minimax T cfg ev gen a child (ply + 1) (Suc d - 1) newpv lo hi"
      have S: "\<forall>a c pv lo hi a' ms v. tableInRange a \<longrightarrow>
                minEval - 1 \<le> lo \<longrightarrow> lo < hi \<longrightarrow> hi \<le> maxEval + 1 \<longrightarrow>
                ?search a c pv lo hi = Inr (a', ms, v) \<longrightarrow> inRange v \<and> tableInRange a'"
        using Suc.IH by simp
      have m: "minimax T cfg ev gen ai p ply (Suc d) pv \<alpha> \<beta> =
          (case searchMoves ?search cfg (Suc d) \<beta> moves 0 ai2 pv \<alpha> False of
             Inl e \<Rightarrow> Inl e
           | Inr (ai3, best, \<alpha>', improved) \<Rightarrow>
               (case storeResult ai3 (pHash T p) (Suc d) best \<alpha>' \<beta> improved of
                  Inl e \<Rightarrow> Inl e | Inr ai4 \<Rightarrow> Inr (ai4, best, \<alpha>')))"
        using False None g by (subst minimax.simps) simp
      from Suc.prems(5) [unfolded m] obtain ai3 imp where
        l: "searchMoves ?search cfg (Suc d) \<beta> moves 0 ai2 pv \<alpha> False = Inr (ai3, pv', v, imp)"
        and sr: "storeResult ai3 (pHash T p) (Suc d) pv' v \<beta> imp = Inr ai'"
        by (auto split: sum.splits)
      from searchMoves_bounded [OF S Suc.prems(4) t2 Suc.prems(2,3) l] mne
      have t3: "tableInRange ai3" and bv: "inRange v" by simp_all
      from storeResult_inRange [OF sr t3 bv] bv show ?thesis by simp
    qed
  qed
qed

text \<open>
  C2, as the code has it. On a finished game with a winner the evaluator's score lies in
  \<open>[minEval, maxEval]\<close> exactly when the winner's stone count is at most the move number
  (and the two differ by at most \<open>2 * maxEval\<close>). Whenever every evaluation and every
  value stored in the table lies in \<open>[minEval, maxEval]\<close>, the move generator keeps its
  contract and the window lies within \<open>(minEval - 1, maxEval + 1)\<close>, as the root window
  does, the value the search returns lies in \<open>[minEval, maxEval]\<close>, at every depth, and so
  does every value stored in the table afterwards.
\<close>

theorem value_in_range:
  "(pGameOver T p = (True, winner) \<longrightarrow> winner \<noteq> NoColor \<longrightarrow>
      (\<exists>v. evaluate T B w c p = Inr v \<and>
         (inRange v \<longleftrightarrow>
            (let stones = (if winner = White then pWhiteStones T p else pBlackStones T p)
             in stones \<le> pMoveNumber T p \<and> pMoveNumber T p - stones \<le> 2 * maxEval))))
   \<and>
   (legalGen T cfg gen \<longrightarrow> (\<forall>q v. ev q = Inr v \<longrightarrow> inRange v) \<longrightarrow> tableInRange ai \<longrightarrow>
    minEval - 1 \<le> \<alpha> \<longrightarrow> \<alpha> < \<beta> \<longrightarrow> \<beta> \<le> maxEval + 1 \<longrightarrow>
    minimax T cfg ev gen ai p ply d pv \<alpha> \<beta> = Inr (ai', pv', v') \<longrightarrow>
    inRange v' \<and> tableInRange ai')"
proof (intro conjI impI)
  assume "pGameOver T p = (True, winner)" "winner \<noteq> NoColor"
  then show "\<exists>v. evaluate T B w c p = Inr v \<and>
         (inRange v \<longleftrightarrow>
            (let stones = (if winner = White then pWhiteStones T p else pBlackStones T p)
             in stones \<le> pMoveNumber T p \<and> pMoveNumber T p - stones \<le> 2 * maxEval))"
    by (auto simp: evaluate_def inRange_def minEval_def Let_def)
next
  assume a: "legalGen T cfg gen" "\<forall>q v. ev q = Inr v \<longrightarrow> inRange v" "tableInRange ai"
    "minEval - 1 \<le> \<alpha>" "\<alpha> < \<beta>" "\<beta> \<le> maxEval + 1"
    "minimax T cfg ev gen ai p ply d pv \<alpha> \<beta> = Inr (ai', pv', v')"
  from minimax_bounded [OF a] show "inRange v'" by simp
next
  assume a: "legalGen T cfg gen" "\<forall>q v. ev q = Inr v \<longrightarrow> inRange v" "tableInRange ai"
    "minEval - 1 \<le> \<alpha>" "\<alpha> < \<beta>" "\<beta> \<le> maxEval + 1"
    "minimax T cfg ev gen ai p ply d pv \<alpha> \<beta> = Inr (ai', pv', v')"
  from minimax_bounded [OF a] show "tableInRange ai'" by simp
qed

theorem value_in_range_witness:
  "evaluate toyT toyB DefaultWeights () 2 = Inr (minEval - 7) \<and> \<not> inRange (minEval - 7) \<and>
   minimax toyT (toyCfg 1) toyEval2 (plainGen toyT) (NewMinimax (toyCfg 1) ()) 0 0 1 []
          (minEval - 1) (maxEval + 1) = Inr (aiSearched, [mvB], 300) \<and>
   inRange 300 \<and> tableInRange aiSearched"
proof -
  have g: "pGameOver toyT 2 = (True, White)" by (simp add: toyT_def)
  have e: "evaluate toyT toyB DefaultWeights () 2 = Inr (minEval - 7)"
    by (simp add: evaluate_def toyT_def minEval_def)
  from value_in_range [THEN conjunct1, rule_format, OF g, of toyB DefaultWeights "()"] e
  have n: "\<not> inRange (minEval - 7)"
    by (simp add: toyT_def)
  have m: "minimax toyT (toyCfg 1) toyEval2 (plainGen toyT) (NewMinimax (toyCfg 1) ()) 0 0 1 []
          (minEval - 1) (maxEval + 1) = Inr (aiSearched, [mvB], 300)"
    by (simp add: minimax.simps toy_defs)
  have ev: "\<forall>q v. toyEval2 q = Inr v \<longrightarrow> inRange v"
    by (simp add: toyEval2_def inRange_def minEval_def maxEval_def)
  have t: "tableInRange (NewMinimax (toyCfg 1) ())"
    by (simp add: tableInRange_def inRange_def NewMinimax_def zeroEntry_def minEval_def maxEval_def)
  have w: "minEval - 1 \<le> minEval - 1 \<and> minEval - 1 < maxEval + 1 \<and> maxEval + 1 \<le> maxEval + 1"
    by (simp add: minEval_def maxEval_def)
  from value_in_range [where T = toyT and cfg = "toyCfg 1" and gen = "plainGen toyT" and ev = toyEval2
      and ai = "NewMinimax (toyCfg 1) ()" and \<alpha> = "minEval - 1" and \<beta> = "maxEval + 1" and p = 0
      and ply = 0 and d = 1 and pv = "[]" and ai' = aiSearched and pv' = "[mvB]" and v' = 300,
      THEN conjunct2] legalGen_toy [of 1] ev t w m
  have "inRange 300 \<and> tableInRange aiSearched"
    by blast
  with e n m show ?thesis by simp
qed

text \<open>
  The evaluator leaves the interval: position 2 is won by White at move 9 with 16 white
  stones in reserve and Black to move, its score is \<open>minEval + 9 - 16\<close>; the depth-1
  search of position 0, which can move there, returns \<open>maxEval + 7\<close>.
\<close>

theorem value_in_range_counterexample:
  "pGameOver toyT 2 = (True, White) \<and> pToMove toyT 2 = Black \<and>
   evaluate toyT toyB DefaultWeights () 2 = Inr (minEval + 9 - 16) \<and>
   \<not> (minEval \<le> minEval + 9 - 16) \<and>
   map_sum id (\<lambda>(a, ms, v). v)
     (minimax toyT (toyCfg 1) toyEval (plainGen toyT) (NewMinimax (toyCfg 1) ()) 0 0 1 []
        (minEval - 1) (maxEval + 1)) = Inr (maxEval + 7) \<and>
   \<not> (maxEval + 7 \<le> maxEval)"
  by (simp add: minimax.simps toy_defs)

end
